theory Spec2Isabelle
  imports Complex_Main
begin

section \<open>Python values\<close>

text \<open>
  The callback is dynamically typed: a validation set is whatever object the caller put
  into the list, and the code finds out its shape with \<^verbatim>\<open>len\<close> and tuple unpacking.
  The values the callback can meet are modelled by one datatype. A numpy array is the
  sequence of its entries along the first axis (so \<^verbatim>\<open>a.shape[0]\<close> is the length of that
  sequence and \<^verbatim>\<open>a[i]\<close> its i-th entry). A generator object is a reference into a store
  of generators, since \<^verbatim>\<open>next\<close> changes the generator and two validation sets may
  share one; the store holds, for each generator, the batches it has yet to yield.
  Dictionaries have string keys and keep their insertion order. \<open>PInt\<close>, \<open>PFloat\<close>
  and \<open>PNan\<close> are Python numbers (\<^verbatim>\<open>math.nan\<close> is a Python float); \<open>NpInt\<close>,
  \<open>NpFloat\<close> and \<open>NpNan\<close> are numpy scalars, which is what indexing a numeric array
  down to a number gives. A numpy scalar has the empty shape and cannot be indexed.
\<close>

datatype error =
    ValueError
  | TypeError
  | IndexError
  | KeyError
  | AttributeError
  | AssertionError
  | StopIteration
  | ModelError nat

datatype pyval =
    PNone
  | PInt int
  | PFloat real
  | PNan
  | PStr string
  | PTuple "pyval list"
  | PList "pyval list"
  | PArr "pyval list"
  | PDict "(string \<times> pyval) list"
  | PGen nat
  | NpInt int
  | NpFloat real
  | NpNan

text \<open>\<^verbatim>\<open>len(v)\<close>: defined for strings, tuples, lists, arrays and dictionaries.\<close>

fun py_len :: "pyval \<Rightarrow> error + nat" where
  "py_len (PStr s) = Inr (length s)"
| "py_len (PTuple xs) = Inr (length xs)"
| "py_len (PList xs) = Inr (length xs)"
| "py_len (PArr xs) = Inr (length xs)"
| "py_len (PDict d) = Inr (length d)"
| "py_len _ = Inl TypeError"

section \<open>The external model\<close>

text \<open>
  The Keras model is not part of the repository: its operations are parameters. Each
  takes the store of generators and returns a value or an exception together with the
  store it leaves behind. The arguments are those the callback passes:
  \<^verbatim>\<open>evaluate_generator(generator, steps)\<close>,
  \<^verbatim>\<open>evaluate(x, y, verbose, sample_weight, batch_size)\<close> and
  \<^verbatim>\<open>predict(x, batch_size)\<close>. The evaluate operations return the sequence of metric
  values.
\<close>

type_synonym generators = "nat \<Rightarrow> pyval list"

type_synonym ('s, 'a) comp = "'s \<Rightarrow> (error + 'a) \<times> 's"

record kmodel =
  metrics_names :: "string list"
  evaluate_generator :: "pyval \<Rightarrow> pyval \<Rightarrow> (generators, pyval list) comp"
  evaluate :: "pyval \<Rightarrow> pyval \<Rightarrow> int \<Rightarrow> pyval \<Rightarrow> pyval \<Rightarrow> (generators, pyval list) comp"
  predict :: "pyval \<Rightarrow> pyval \<Rightarrow> (generators, pyval) comp"

section \<open>The callback object\<close>

text \<open>
  The fields of \<^verbatim>\<open>AdditionalValidationSets\<close>. \<^verbatim>\<open>model\<close> is the attribute of the Keras
  base class: \<^verbatim>\<open>None\<close> after construction, set by the framework before training.
  The history is a dictionary from keys to the list of recorded values.
\<close>

type_synonym history_dict = "(string \<times> pyval list) list"

record callback =
  record_predictions :: bool
  validation_sets :: "pyval list"
  epoch :: "int list"
  history :: history_dict
  verbose :: int
  batch_size :: pyval
  record_original_history :: bool
  model :: "kmodel option"

subsection \<open>Construction\<close>

text \<open>The loop of \<^verbatim>\<open>__init__\<close> over the validation sets (lines 27-29).\<close>

fun check_arities :: "pyval list \<Rightarrow> error + unit" where
  "check_arities [] = Inr ()"
| "check_arities (validation_set # rest) =
     (case py_len validation_set of
        Inl e \<Rightarrow> Inl e
      | Inr n \<Rightarrow> if n \<notin> set [2, 3, 4] then Inl ValueError else check_arities rest)"

definition init :: "pyval list \<Rightarrow> int \<Rightarrow> pyval \<Rightarrow> bool \<Rightarrow> bool \<Rightarrow> error + callback" where
  "init validation_sets' verbose' batch_size' record_original_history' record_predictions' =
     (case check_arities validation_sets' of
        Inl e \<Rightarrow> Inl e
      | Inr _ \<Rightarrow>
          Inr \<lparr> record_predictions = record_predictions',
                validation_sets = validation_sets',
                epoch = [],
                history = [],
                verbose = verbose',
                batch_size = batch_size',
                record_original_history = record_original_history',
                model = None \<rparr>)"

subsection \<open>on_train_begin\<close>

definition on_train_begin :: "(string \<times> pyval) list option \<Rightarrow> callback \<Rightarrow> callback" where
  "on_train_begin logs self = self\<lparr> epoch := [], history := [] \<rparr>"

subsection \<open>Dictionary operations\<close>

text \<open>\<^verbatim>\<open>d[key]\<close>.\<close>

definition dict_get :: "(string \<times> 'v) list \<Rightarrow> string \<Rightarrow> error + 'v" where
  "dict_get d key = (case map_of d key of None \<Rightarrow> Inl KeyError | Some v \<Rightarrow> Inr v)"

text \<open>\<^verbatim>\<open>d[key] = v\<close>: an existing key keeps its place, a new key goes last.\<close>

fun dict_set :: "(string \<times> 'v) list \<Rightarrow> string \<Rightarrow> 'v \<Rightarrow> (string \<times> 'v) list" where
  "dict_set [] key v = [(key, v)]"
| "dict_set ((k, w) # d) key v = (if k = key then (k, v) # d else (k, w) # dict_set d key v)"

text \<open>\<^verbatim>\<open>self.history.setdefault(key, []).append(v)\<close>.\<close>

fun setdefault_append :: "history_dict \<Rightarrow> string \<Rightarrow> pyval \<Rightarrow> history_dict" where
  "setdefault_append [] key v = [(key, [v])]"
| "setdefault_append ((k, vs) # h) key v =
     (if k = key then (k, vs @ [v]) # h else (k, vs) # setdefault_append h key v)"

text \<open>Evaluating a list comprehension whose element expression can raise: the first
  exception ends it.\<close>

fun comprehension :: "('a \<Rightarrow> error + 'b) \<Rightarrow> 'a list \<Rightarrow> error + 'b list" where
  "comprehension f [] = Inr []"
| "comprehension f (x # xs) =
     (case f x of
        Inl e \<Rightarrow> Inl e
      | Inr y \<Rightarrow> (case comprehension f xs of Inl e \<Rightarrow> Inl e | Inr ys \<Rightarrow> Inr (y # ys)))"

subsection \<open>results\<close>

text \<open>
  \<^verbatim>\<open>self.history[key][len(self.history[key]) - 1]\<close>: on an empty list the index is
  \<^verbatim>\<open>-1\<close>, which raises.
\<close>

definition last_recorded :: "history_dict \<Rightarrow> string \<Rightarrow> error + (string \<times> pyval)" where
  "last_recorded h key =
     (case dict_get h key of
        Inl e \<Rightarrow> Inl e
      | Inr vs \<Rightarrow> if vs = [] then Inl IndexError else Inr (key, vs ! (length vs - 1)))"

definition results :: "callback \<Rightarrow> error + (string \<times> pyval) list option" where
  "results self =
     (if history self = [] then Inr None
      else (case comprehension (last_recorded (history self)) (map fst (history self)) of
              Inl e \<Rightarrow> Inl e
            | Inr results' \<Rightarrow> Inr (Some (foldl (\<lambda>rs (key, v). dict_set rs key v) [] results'))))"

section \<open>Computations with state and exceptions\<close>

text \<open>
  A statement that can raise and that changes state is a function from the state to an
  exception or a value, together with the state it leaves. The state is returned in
  both cases: an exception does not undo what was recorded before it.
\<close>

definition ret :: "'a \<Rightarrow> ('s, 'a) comp" where
  "ret x = (\<lambda>s. (Inr x, s))"

definition raise :: "error \<Rightarrow> ('s, 'a) comp" where
  "raise e = (\<lambda>s. (Inl e, s))"

definition lift :: "error + 'a \<Rightarrow> ('s, 'a) comp" where
  "lift r = (\<lambda>s. (r, s))"

definition bind :: "('s, 'a) comp \<Rightarrow> ('a \<Rightarrow> ('s, 'b) comp) \<Rightarrow> ('s, 'b) comp" where
  "bind m f = (\<lambda>s. case m s of (Inl e, s') \<Rightarrow> (Inl e, s') | (Inr x, s') \<Rightarrow> f x s')"

text \<open>
  A \<^verbatim>\<open>for\<close> loop over a list: \<open>acc\<close> holds the local variables the body assigns; an
  exception in the body ends the loop.
\<close>

fun for_each :: "'a list \<Rightarrow> ('a \<Rightarrow> 'b \<Rightarrow> ('s, 'b) comp) \<Rightarrow> 'b \<Rightarrow> ('s, 'b) comp" where
  "for_each [] body acc s = (Inr acc, s)"
| "for_each (x # xs) body acc s =
     (case body x acc s of
        (Inl e, s') \<Rightarrow> (Inl e, s')
      | (Inr acc', s') \<Rightarrow> for_each xs body acc' s')"

section \<open>Python operations used by on_epoch_end\<close>

text \<open>\<^verbatim>\<open>v[i]\<close> for a non-negative index.\<close>

fun py_getitem :: "pyval \<Rightarrow> nat \<Rightarrow> error + pyval" where
  "py_getitem (PTuple xs) i = (if i < length xs then Inr (xs ! i) else Inl IndexError)"
| "py_getitem (PList xs) i = (if i < length xs then Inr (xs ! i) else Inl IndexError)"
| "py_getitem (PArr xs) i = (if i < length xs then Inr (xs ! i) else Inl IndexError)"
| "py_getitem (PStr s) i = (if i < length s then Inr (PStr [s ! i]) else Inl IndexError)"
| "py_getitem (PDict d) i = Inl KeyError"
| "py_getitem (NpInt n) i = Inl IndexError"
| "py_getitem (NpFloat r) i = Inl IndexError"
| "py_getitem NpNan i = Inl IndexError"
| "py_getitem _ i = Inl TypeError"

text \<open>\<^verbatim>\<open>v.shape[0]\<close>: arrays and numpy scalars have a shape, and that of a scalar is
  empty.\<close>

fun py_shape0 :: "pyval \<Rightarrow> error + nat" where
  "py_shape0 (PArr xs) = Inr (length xs)"
| "py_shape0 (NpInt n) = Inl IndexError"
| "py_shape0 (NpFloat r) = Inl IndexError"
| "py_shape0 NpNan = Inl IndexError"
| "py_shape0 _ = Inl AttributeError"

text \<open>\<^verbatim>\<open>range(v)\<close>, as the list of its indices; empty for a negative bound.\<close>

fun py_range :: "pyval \<Rightarrow> error + nat list" where
  "py_range (PInt n) = Inr [0..<nat n]"
| "py_range (NpInt n) = Inr [0..<nat n]"
| "py_range _ = Inl TypeError"

text \<open>\<^verbatim>\<open>s + v\<close> for a string \<open>s\<close>.\<close>

fun py_str_add :: "string \<Rightarrow> pyval \<Rightarrow> error + string" where
  "py_str_add s (PStr t) = Inr (s @ t)"
| "py_str_add s _ = Inl TypeError"

text \<open>\<^verbatim>\<open>next(v)\<close>: only a generator is an iterator.\<close>

fun py_next :: "pyval \<Rightarrow> (generators, pyval) comp" where
  "py_next (PGen g) gs =
     (case gs g of [] \<Rightarrow> (Inl StopIteration, gs) | b # rest \<Rightarrow> (Inr b, gs(g := rest)))"
| "py_next _ gs = (Inl TypeError, gs)"

text \<open>The items of an iterable that is not a generator.\<close>

fun sequence_items :: "pyval \<Rightarrow> pyval list option" where
  "sequence_items (PTuple xs) = Some xs"
| "sequence_items (PList xs) = Some xs"
| "sequence_items (PArr xs) = Some xs"
| "sequence_items (PStr s) = Some (map (\<lambda>c. PStr [c]) s)"
| "sequence_items (PDict d) = Some (map (\<lambda>(k, v). PStr k) d)"
| "sequence_items _ = None"

text \<open>Iterating a value to its end (\<^verbatim>\<open>for x in v\<close>, \<^verbatim>\<open>*v\<close>): a generator is used up.\<close>

fun py_items :: "pyval \<Rightarrow> (generators, pyval list) comp" where
  "py_items (PGen g) gs = (Inr (gs g), gs(g := []))"
| "py_items v gs = (case sequence_items v of None \<Rightarrow> (Inl TypeError, gs) | Some xs \<Rightarrow> (Inr xs, gs))"

text \<open>
  The items tuple unpacking into \<open>n\<close> targets looks at: all of a sequence, and of a
  generator the first \<open>n + 1\<close> at most (the last one only to find that there are too
  many). The unpacking succeeds when these are exactly \<open>n\<close>.
\<close>

fun unpack_items :: "nat \<Rightarrow> pyval \<Rightarrow> (generators, pyval list) comp" where
  "unpack_items n (PGen g) gs = (Inr (take (Suc n) (gs g)), gs(g := drop (Suc n) (gs g)))"
| "unpack_items n v gs =
     (case sequence_items v of None \<Rightarrow> (Inl TypeError, gs) | Some xs \<Rightarrow> (Inr xs, gs))"

subsection \<open>zip\<close>

datatype iterator = SeqIter "pyval list" | GenIter nat

text \<open>\<^verbatim>\<open>iter(v)\<close>; a generator is its own iterator.\<close>

fun py_iter :: "pyval \<Rightarrow> error + iterator" where
  "py_iter (PGen g) = Inr (GenIter g)"
| "py_iter v = (case sequence_items v of None \<Rightarrow> Inl TypeError | Some xs \<Rightarrow> Inr (SeqIter xs))"

fun iter_next :: "iterator \<Rightarrow> generators \<Rightarrow> (pyval \<times> iterator) option \<times> generators" where
  "iter_next (SeqIter []) gs = (None, gs)"
| "iter_next (SeqIter (x # xs)) gs = (Some (x, SeqIter xs), gs)"
| "iter_next (GenIter g) gs =
     (case gs g of [] \<Rightarrow> (None, gs) | x # xs \<Rightarrow> (Some (x, GenIter g), gs(g := xs)))"

text \<open>One round of \<^verbatim>\<open>zip\<close>: the next item of each iterator in turn, stopping at the
  first one that is exhausted.\<close>

fun zip_round :: "iterator list \<Rightarrow> generators \<Rightarrow> (pyval list \<times> iterator list) option \<times> generators" where
  "zip_round [] gs = (Some ([], []), gs)"
| "zip_round (it # its) gs =
     (case iter_next it gs of
        (None, gs') \<Rightarrow> (None, gs')
      | (Some (x, it'), gs') \<Rightarrow>
          (case zip_round its gs' of
             (None, gs'') \<Rightarrow> (None, gs'')
           | (Some (xs, its'), gs'') \<Rightarrow> (Some (x # xs, it' # its'), gs'')))"

definition remaining :: "iterator list \<Rightarrow> generators \<Rightarrow> nat" where
  "remaining its gs =
     sum_list (map (\<lambda>it. case it of SeqIter xs \<Rightarrow> length xs | GenIter g \<Rightarrow> length (gs g)) its)"

text \<open>The rounds of \<^verbatim>\<open>zip\<close> until some iterator is exhausted; with no iterator at all
  there is no round.\<close>

function zip_rounds :: "iterator list \<Rightarrow> generators \<Rightarrow> pyval list \<times> generators" where
  "zip_rounds its gs =
     (if its = [] then ([], gs)
      else (case zip_round its gs of
              (None, gs') \<Rightarrow> ([], gs')
            | (Some (row, its'), gs') \<Rightarrow>
                (case zip_rounds its' gs' of (rows, gs'') \<Rightarrow> (PTuple row # rows, gs''))))"
  by pat_completeness auto

text \<open>\<^verbatim>\<open>list(zip(*v))\<close>.\<close>

definition py_zip_star :: "pyval \<Rightarrow> (generators, pyval list) comp" where
  "py_zip_star v =
     bind (py_items v) (\<lambda>args.
     bind (lift (comprehension py_iter args)) (\<lambda>its.
     (\<lambda>gs. case zip_rounds its gs of (rows, gs') \<Rightarrow> (Inr rows, gs'))))"

section \<open>on_epoch_end\<close>

subsection \<open>Destructuring a validation set (lines 56-68)\<close>

record vset =
  validation_generator :: pyval
  validation_steps :: pyval
  validation_data :: pyval
  validation_targets :: pyval
  sample_weights :: pyval
  validation_set_name :: pyval

definition destructure :: "pyval \<Rightarrow> (generators, vset) comp" where
  "destructure validation_set =
     bind (lift (py_len validation_set)) (\<lambda>n.
       if n = 2 then
         bind (unpack_items 2 validation_set) (\<lambda>outer.
           case outer of
             [pair, name] \<Rightarrow>
               bind (unpack_items 2 pair) (\<lambda>inner.
                 case inner of
                   [generator, steps] \<Rightarrow>
                     ret \<lparr> validation_generator = generator, validation_steps = steps,
                           validation_data = PNone, validation_targets = PNone,
                           sample_weights = PNone, validation_set_name = name \<rparr>
                 | _ \<Rightarrow> raise ValueError)
           | _ \<Rightarrow> raise ValueError)
       else if n = 3 then
         bind (unpack_items 3 validation_set) (\<lambda>items.
           case items of
             [data, targets, name] \<Rightarrow>
               ret \<lparr> validation_generator = PNone, validation_steps = PNone,
                     validation_data = data, validation_targets = targets,
                     sample_weights = PNone, validation_set_name = name \<rparr>
           | _ \<Rightarrow> raise ValueError)
       else if n = 4 then
         bind (unpack_items 4 validation_set) (\<lambda>items.
           case items of
             [data, targets, weights, name] \<Rightarrow>
               ret \<lparr> validation_generator = PNone, validation_steps = PNone,
                     validation_data = data, validation_targets = targets,
                     sample_weights = weights, validation_set_name = name \<rparr>
           | _ \<Rightarrow> raise ValueError)
       else raise ValueError)"

subsection \<open>Predictions of a generator (lines 76-99)\<close>

text \<open>The body of the loop over \<^verbatim>\<open>range(validation_steps)\<close> (lines 81-87); the
  accumulator is \<^verbatim>\<open>(predictions['y_pred'], predictions['y_true'])\<close>.\<close>

definition predict_batch :: "kmodel \<Rightarrow> pyval \<Rightarrow> pyval list \<times> pyval list \<Rightarrow>
    (generators, pyval list \<times> pyval list) comp" where
  "predict_batch m generator acc =
     bind (py_next generator) (\<lambda>batch.
     bind (lift (py_getitem batch 0)) (\<lambda>xs.
     bind (lift (py_getitem batch 1)) (\<lambda>ys.
     bind (lift (py_getitem xs 0)) (\<lambda>x0.
     bind (lift (py_shape0 x0)) (\<lambda>n.
     bind (predict m xs (PInt (int n))) (\<lambda>y_pred.
     ret (fst acc @ [y_pred], snd acc @ [ys])))))))"

text \<open>\<^verbatim>\<open>[output[batch_idx] for output in batch]\<close>.\<close>

definition example_at :: "pyval \<Rightarrow> nat \<Rightarrow> (generators, pyval) comp" where
  "example_at batch batch_idx =
     bind (py_items batch) (\<lambda>outputs.
     bind (lift (comprehension (\<lambda>output. py_getitem output batch_idx) outputs)) (\<lambda>row.
     ret (PList row)))"

text \<open>The body of the loops over the collected batches (lines 93-94 and 96-97).\<close>

definition reformat_batch :: "pyval \<Rightarrow> pyval list \<Rightarrow> (generators, pyval list) comp" where
  "reformat_batch batch reformatted =
     bind (lift (py_getitem batch 0)) (\<lambda>first.
     bind (lift (py_shape0 first)) (\<lambda>n.
     for_each [0..<n] (\<lambda>batch_idx acc.
       bind (example_at batch batch_idx) (\<lambda>example. ret (acc @ [example]))) reformatted))"

text \<open>Lines 76-98: the reconstructed \<^verbatim>\<open>(y_pred, y_true)\<close>, before the assertion.\<close>

definition reconstruct_generator :: "kmodel \<Rightarrow> vset \<Rightarrow> (generators, pyval list \<times> pyval list) comp" where
  "reconstruct_generator m vs =
     bind (lift (py_range (validation_steps vs))) (\<lambda>steps.
     bind (for_each steps (\<lambda>_ acc. predict_batch m (validation_generator vs) acc) ([], []))
       (\<lambda>predictions.
     bind (for_each (fst predictions) reformat_batch []) (\<lambda>y_pred.
     bind (for_each (snd predictions) reformat_batch []) (\<lambda>y_true.
     ret (y_pred, y_true)))))"

subsection \<open>Predictions of arrays (lines 107-110)\<close>

definition reconstruct_arrays :: "kmodel \<Rightarrow> vset \<Rightarrow> (generators, pyval list \<times> pyval list) comp" where
  "reconstruct_arrays m vs =
     bind (predict m (validation_data vs) PNone) (\<lambda>predicted.
     bind (py_zip_star predicted) (\<lambda>y_pred.
     bind (py_zip_star (validation_targets vs)) (\<lambda>y_true.
     ret (y_pred, y_true))))"

subsection \<open>The prediction bundle and its assertion (lines 99 and 111)\<close>

definition prediction_bundle :: "pyval list \<Rightarrow> pyval list \<Rightarrow> pyval" where
  "prediction_bundle y_pred y_true = PDict [(''y_pred'', PList y_pred), (''y_true'', PList y_true)]"

definition assert_same_length :: "pyval list \<times> pyval list \<Rightarrow> (generators, pyval) comp" where
  "assert_same_length p =
     (if length (snd p) = length (fst p) then ret (prediction_bundle (fst p) (snd p))
      else raise AssertionError)"

subsection \<open>Evaluating one validation set (lines 70-118)\<close>

text \<open>Returns \<^verbatim>\<open>(results, predictions)\<close>. \<open>model'\<close> is the local variable
  \<^verbatim>\<open>model\<close>, the value of \<^verbatim>\<open>self.model_to_evaluate()\<close>.\<close>

definition run_model :: "callback \<Rightarrow> kmodel option \<Rightarrow> vset \<Rightarrow> (generators, pyval list \<times> pyval) comp" where
  "run_model self model' vs =
     (case model' of
        Some m \<Rightarrow>
          if validation_generator vs \<noteq> PNone then
            bind (evaluate_generator m (validation_generator vs) (validation_steps vs)) (\<lambda>results.
              if record_predictions self then
                bind (reconstruct_generator m vs) (\<lambda>p.
                bind (assert_same_length p) (\<lambda>predictions. ret (results, predictions)))
              else ret (results, PNone))
          else
            bind (evaluate m (validation_data vs) (validation_targets vs) 0 (sample_weights vs)
                    (batch_size self)) (\<lambda>results.
              if record_predictions self then
                bind (reconstruct_arrays m vs) (\<lambda>p.
                bind (assert_same_length p) (\<lambda>predictions. ret (results, predictions)))
              else ret (results, PNone))
      | None \<Rightarrow>
          (case model self of
             None \<Rightarrow> raise AttributeError
           | Some trained \<Rightarrow>
               ret (map (\<lambda>_. PNan) (metrics_names trained),
                    if record_predictions self then prediction_bundle [] [] else PNone)))"

subsection \<open>Recording (lines 120-129)\<close>

text \<open>The state of a call: the callback object, the generators, and what was printed.\<close>

record world =
  self :: callback
  gens :: generators
  printed :: "(string \<times> pyval) list"

definition on_gens :: "(generators, 'a) comp \<Rightarrow> (world, 'a) comp" where
  "on_gens c = (\<lambda>w. case c (gens w) of (r, gs) \<Rightarrow> (r, w\<lparr> gens := gs \<rparr>))"

definition history_append :: "string \<Rightarrow> pyval \<Rightarrow> (world, unit) comp" where
  "history_append key v =
     (\<lambda>w. (Inr (), w\<lparr> self := (self w)\<lparr> history := setdefault_append (history (self w)) key v \<rparr> \<rparr>))"

definition print2 :: "string \<Rightarrow> pyval \<Rightarrow> (world, unit) comp" where
  "print2 s v = (\<lambda>w. (Inr (), w\<lparr> printed := printed w @ [(s, v)] \<rparr>))"

text \<open>\<^verbatim>\<open>self.model.metrics_names[i]\<close>.\<close>

definition metric_name :: "callback \<Rightarrow> nat \<Rightarrow> error + string" where
  "metric_name self' i =
     (case model self' of
        None \<Rightarrow> Inl AttributeError
      | Some trained \<Rightarrow>
          if i < length (metrics_names trained) then Inr (metrics_names trained ! i)
          else Inl IndexError)"

text \<open>\<^verbatim>\<open>self.prefix() + validation_set_name + '_' + self.model.metrics_names[i]\<close>.\<close>

definition metric_key :: "string \<Rightarrow> pyval \<Rightarrow> nat \<Rightarrow> callback \<Rightarrow> error + string" where
  "metric_key pfx name i self' =
     (case py_str_add pfx name of
        Inl e \<Rightarrow> Inl e
      | Inr s \<Rightarrow> (case metric_name self' i of Inl e \<Rightarrow> Inl e | Inr mn \<Rightarrow> Inr (s @ ''_'' @ mn)))"

text \<open>Lines 120-123.\<close>

definition record_bundle :: "string \<Rightarrow> pyval \<Rightarrow> pyval \<Rightarrow> (world, unit) comp" where
  "record_bundle pfx name predictions =
     (\<lambda>w. if record_predictions (self w) then
             bind (lift (py_str_add pfx name)) (\<lambda>s.
               if predictions = PNone then raise AssertionError
               else history_append (s @ ''_predictions'') predictions) w
           else (Inr (), w))"

text \<open>The body of the loop over \<^verbatim>\<open>enumerate(results)\<close> (lines 126-129).\<close>

definition record_metric :: "string \<Rightarrow> pyval \<Rightarrow> nat \<times> pyval \<Rightarrow> unit \<Rightarrow> (world, unit) comp" where
  "record_metric pfx name ir u =
     (\<lambda>w. bind (lift (metric_key pfx name (fst ir) (self w))) (\<lambda>value_name.
           bind (history_append value_name (snd ir)) (\<lambda>_.
             (\<lambda>w'. if verbose (self w') = 1 then
                     bind (lift (metric_key pfx name (fst ir) (self w'))) (\<lambda>s. print2 s (snd ir)) w'
                   else (Inr (), w')))) w)"

definition enumerate_list :: "'a list \<Rightarrow> (nat \<times> 'a) list" where
  "enumerate_list xs = zip [0..<length xs] xs"

subsection \<open>The loop body and the whole method\<close>

text \<open>The body of the loop over \<^verbatim>\<open>self.validation_sets\<close> (lines 56-129).\<close>

definition evaluate_set :: "string \<Rightarrow> kmodel option \<Rightarrow> pyval \<Rightarrow> unit \<Rightarrow> (world, unit) comp" where
  "evaluate_set pfx model' validation_set u =
     bind (on_gens (destructure validation_set)) (\<lambda>vs.
     bind (\<lambda>w. on_gens (run_model (self w) model' vs) w) (\<lambda>rp.
     bind (record_bundle pfx (validation_set_name vs) (snd rp)) (\<lambda>_.
     for_each (enumerate_list (fst rp)) (record_metric pfx (validation_set_name vs)) ())))"

text \<open>Lines 45-47: \<^verbatim>\<open>logs or {}\<close> and the loop over its items.\<close>

definition record_logs :: "(string \<times> pyval) list option \<Rightarrow> history_dict \<Rightarrow> history_dict" where
  "record_logs logs h =
     foldl (\<lambda>h' (k, v). setdefault_append h' k v) h (case logs of None \<Rightarrow> [] | Some d \<Rightarrow> d)"

text \<open>
  \<^verbatim>\<open>prefix\<close> and \<^verbatim>\<open>model_to_evaluate\<close> are meant to be overridden by subclasses, so
  the method is modelled for any prefix string \<open>pfx\<close> and any \<open>mte\<close>, the function that
  \<^verbatim>\<open>model_to_evaluate\<close> computes from the callback.
\<close>

definition on_epoch_end_with :: "string \<Rightarrow> (callback \<Rightarrow> kmodel option) \<Rightarrow> int \<Rightarrow>
    (string \<times> pyval) list option \<Rightarrow> (world, unit) comp" where
  "on_epoch_end_with pfx mte epoch' logs w =
     (let w1 = w\<lparr> self := (self w)\<lparr> epoch := epoch (self w) @ [epoch'] \<rparr> \<rparr>;
          w2 = (if record_original_history (self w1)
                then w1\<lparr> self := (self w1)\<lparr> history := record_logs logs (history (self w1)) \<rparr> \<rparr>
                else w1)
      in if length (validation_sets (self w2)) = 0 then (Inr (), w2)
         else for_each (validation_sets (self w2)) (evaluate_set pfx (mte (self w2))) () w2)"

text \<open>The two methods as the class defines them, and \<^verbatim>\<open>on_epoch_end\<close> of the class
  itself.\<close>

definition prefix :: string where
  "prefix = []"

definition model_to_evaluate :: "callback \<Rightarrow> kmodel option" where
  "model_to_evaluate self' = model self'"

definition on_epoch_end :: "int \<Rightarrow> (string \<times> pyval) list option \<Rightarrow> (world, unit) comp" where
  "on_epoch_end = on_epoch_end_with prefix model_to_evaluate"

subsection \<open>The documented shapes of a validation set\<close>

text \<open>
  The docstring of \<^verbatim>\<open>__init__\<close> (lines 15-18): a 2-tuple
  \<^verbatim>\<open>((validation_generator, validation_steps), validation_set_name)\<close>, a 3-tuple
  \<^verbatim>\<open>(validation_data, validation_targets, validation_set_name)\<close> or a 4-tuple
  \<^verbatim>\<open>(validation_data, validation_targets, sample_weights, validation_set_name)\<close>; the
  name is a string, since it is concatenated to one.
\<close>

definition is_str :: "pyval \<Rightarrow> bool" where
  "is_str v = (case v of PStr s \<Rightarrow> True | _ \<Rightarrow> False)"

definition documented_shape :: "pyval \<Rightarrow> bool" where
  "documented_shape v =
     (case v of
        PTuple [pair, name] \<Rightarrow>
          is_str name \<and> (case pair of PTuple [generator, steps] \<Rightarrow> True | _ \<Rightarrow> False)
      | PTuple [data, targets, name] \<Rightarrow> is_str name
      | PTuple [data, targets, weights, name] \<Rightarrow> is_str name
      | _ \<Rightarrow> False)"

section \<open>Vocabulary of the properties\<close>

text \<open>
  The notions the properties below are stated with. \<open>recorded h key\<close> is the sequence
  recorded under a key (empty when the key is absent), \<open>append_all h entries\<close> appends
  each value of a list of key-value pairs under its key, in order, and
  \<open>after_logs\<close> is the callback as lines 41-47 leave it, when the evaluation of the
  validation sets starts.
\<close>

definition recorded :: "history_dict \<Rightarrow> string \<Rightarrow> pyval list" where
  "recorded h key = (case map_of h key of None \<Rightarrow> [] | Some vs \<Rightarrow> vs)"

definition append_all :: "history_dict \<Rightarrow> (string \<times> pyval) list \<Rightarrow> history_dict" where
  "append_all h entries = foldl (\<lambda>h' kv. setdefault_append h' (fst kv) (snd kv)) h entries"

definition logs_items :: "(string \<times> pyval) list option \<Rightarrow> (string \<times> pyval) list" where
  "logs_items logs = (case logs of None \<Rightarrow> [] | Some d \<Rightarrow> d)"

definition after_logs :: "int \<Rightarrow> (string \<times> pyval) list option \<Rightarrow> callback \<Rightarrow> callback" where
  "after_logs epoch' logs cb =
     cb\<lparr> epoch := epoch cb @ [epoch'],
         history := (if record_original_history cb
                     then append_all (history cb) (logs_items logs) else history cb) \<rparr>"


text \<open>The entries of one validation set: the prediction bundle under
  \<^verbatim>\<open>prefix + name + '_predictions'\<close> when predictions are recorded, then each metric
  value under \<^verbatim>\<open>prefix + name + '_' + metrics_names[i]\<close>.\<close>

definition metric_entries :: "string \<Rightarrow> string \<Rightarrow> string list \<Rightarrow> pyval list \<Rightarrow> (string \<times> pyval) list" where
  "metric_entries pfx name names values =
     map (\<lambda>ir. (pfx @ name @ ''_'' @ names ! fst ir, snd ir)) (enumerate_list values)"

definition set_entries :: "string \<Rightarrow> string \<Rightarrow> string list \<Rightarrow> bool \<Rightarrow> pyval \<Rightarrow> pyval list \<Rightarrow>
    (string \<times> pyval) list" where
  "set_entries pfx name names with_predictions predictions values =
     (if with_predictions then [(pfx @ name @ ''_predictions'', predictions)] else [])
     @ metric_entries pfx name names values"

text \<open>
  What the body of the loop does with the values an evaluate call returned: the
  predictions (reconstructed by \<open>reconstruct\<close> and asserted) when they are recorded,
  the recording of the bundle, and the recording of each value.
\<close>

definition after_evaluate :: "string \<Rightarrow> pyval \<Rightarrow> (generators, pyval list \<times> pyval list) comp \<Rightarrow>
    pyval list \<Rightarrow> (world, unit) comp" where
  "after_evaluate pfx name reconstruct vals =
     bind (\<lambda>w'. on_gens
            (if record_predictions (self w') then bind reconstruct assert_same_length
             else ret PNone) w') (\<lambda>predictions.
     bind (record_bundle pfx name predictions) (\<lambda>_.
     for_each (enumerate_list vals) (record_metric pfx name) ()))"

text \<open>
  The vocabulary of the predictions of a generator. A batch value is a sequence of arrays,
  one per output of the model: \<open>rows v\<close> is its number of examples (the first axis of
  its first array), \<open>example v j\<close> the j-th entry of each of its arrays. A batch of the
  generator is a pair of inputs and targets: \<open>batch_targets\<close> is its second component
  and \<open>batch_prediction f\<close> what a prediction function \<open>f\<close> returns on its first.
  \<open>offset vs b\<close> is the number of examples in the batch values before the b-th.
\<close>

definition rows :: "pyval \<Rightarrow> nat" where
  "rows v =
     (case py_getitem v 0 of
        Inr first \<Rightarrow> (case py_shape0 first of Inr n \<Rightarrow> n | Inl _ \<Rightarrow> 0)
      | Inl _ \<Rightarrow> 0)"

definition example :: "pyval \<Rightarrow> nat \<Rightarrow> pyval" where
  "example v j =
     PList (map (\<lambda>output. case py_getitem output j of Inr x \<Rightarrow> x | Inl _ \<Rightarrow> PNone)
              (case sequence_items v of Some outputs \<Rightarrow> outputs | None \<Rightarrow> []))"




text \<open>
  \<open>grows w w'\<close>: the callback of \<open>w'\<close> is that of \<open>w\<close> with values appended to its
  history. \<open>sequences_nonempty\<close>: no key of a history has an empty sequence.
\<close>

definition grows :: "world \<Rightarrow> world \<Rightarrow> bool" where
  "grows w w' \<longleftrightarrow>
     (\<exists>entries. self w' = (self w)\<lparr> history := append_all (history (self w)) entries \<rparr>)"

definition sequences_nonempty :: "history_dict \<Rightarrow> bool" where
  "sequences_nonempty h \<longleftrightarrow> list_all (\<lambda>kv. snd kv \<noteq> []) h"

section \<open>Example objects\<close>

text \<open>
  A model with two metrics, whose \<^verbatim>\<open>evaluate_generator\<close> consumes the batches it is
  asked to evaluate and whose \<^verbatim>\<open>predict\<close> returns its input; a batch of two examples
  with one input and one target array; a callback with a generator set and an array set;
  and a world whose generators each hold five batches. They are the inputs at which the
  theorems below are instantiated.
\<close>

definition demo_model :: kmodel where
  "demo_model =
     \<lparr> metrics_names = [''loss'', ''acc''],
       evaluate_generator = (\<lambda>g s gs.
          case (g, s) of
            (PGen i, PInt n) \<Rightarrow> (Inr [PFloat 1, PFloat 2], gs(i := drop (nat n) (gs i)))
          | _ \<Rightarrow> (Inl TypeError, gs)),
       evaluate = (\<lambda>x y v sw bs gs. (Inr [PFloat 3, PFloat 4], gs)),
       predict = (\<lambda>x bs gs. (Inr x, gs)) \<rparr>"

definition demo_batch :: "int \<Rightarrow> pyval" where
  "demo_batch k =
     PTuple [PList [PArr [NpInt k, NpInt (k + 1)]], PList [PArr [NpInt (10 * k), NpInt (10 * k + 1)]]]"

definition demo_callback :: callback where
  "demo_callback =
     \<lparr> record_predictions = True,
       validation_sets =
         [PTuple [PTuple [PGen 0, PInt 2], PStr ''g''],
          PTuple [PList [PArr [NpInt 1, NpInt 2, NpInt 3]], PList [PArr [NpInt 7, NpInt 8, NpInt 9]],
                  PStr ''a'']],
       epoch = [], history = [], verbose = 1, batch_size = PNone,
       record_original_history = True, model = Some demo_model \<rparr>"

definition demo_world :: world where
  "demo_world =
     \<lparr> self = demo_callback,
       gens = (\<lambda>g. [demo_batch 1, demo_batch 3, demo_batch 5, demo_batch 7, demo_batch 9]),
       printed = [] \<rparr>"

section \<open>Termination of zip\<close>

lemma iter_next_le:
  "iter_next it gs = (r, gs') \<Longrightarrow> length (gs' g) \<le> length (gs g)"
  by (induction it gs rule: iter_next.induct) (auto split: list.splits)

lemma zip_round_le:
  "zip_round its gs = (r, gs') \<Longrightarrow> length (gs' g) \<le> length (gs g)"
proof (induction its arbitrary: gs r gs')
  case Nil
  then show ?case by simp
next
  case (Cons it its)
  obtain r1 gs1 where n: "iter_next it gs = (r1, gs1)" by (cases "iter_next it gs")
  obtain r2 gs2 where z: "zip_round its gs1 = (r2, gs2)" by (cases "zip_round its gs1")
  have a: "length (gs1 g) \<le> length (gs g)" using iter_next_le [OF n] .
  have b: "length (gs2 g) \<le> length (gs1 g)" using Cons.IH [OF z] .
  have "gs' = gs1 \<or> gs' = gs2"
    using Cons.prems n z by (auto split: option.splits prod.splits)
  with a b show ?case by auto
qed

lemma remaining_mono:
  "(\<And>g. length (gs' g) \<le> length (gs g)) \<Longrightarrow> remaining its gs' \<le> remaining its gs"
  unfolding remaining_def
  by (induction its) (auto split: iterator.splits intro: add_mono)

lemma iter_next_Some:
  "iter_next it gs = (Some (x, it'), gs') \<Longrightarrow> Suc (remaining [it'] gs') \<le> remaining [it] gs"
  by (induction it gs rule: iter_next.induct) (auto simp: remaining_def split: list.splits)

lemma remaining_Cons: "remaining (it # its) gs = remaining [it] gs + remaining its gs"
  by (simp add: remaining_def)

lemma zip_round_decreases:
  "zip_round its gs = (Some (row, its'), gs') \<Longrightarrow>
     remaining its' gs' + length its \<le> remaining its gs"
proof (induction its arbitrary: gs row its' gs')
  case Nil
  then show ?case by (simp add: remaining_def)
next
  case (Cons it its)
  from Cons.prems obtain x it1 gs1 xs its1 where
    n: "iter_next it gs = (Some (x, it1), gs1)" and
    z: "zip_round its gs1 = (Some (xs, its1), gs')" and
    e: "its' = it1 # its1"
    by (auto split: option.splits prod.splits)
  have le1: "\<And>g. length (gs1 g) \<le> length (gs g)" using iter_next_le [OF n] .
  have le2: "\<And>g. length (gs' g) \<le> length (gs1 g)" using zip_round_le [OF z] .
  have a: "remaining its1 gs' + length its \<le> remaining its gs1" using Cons.IH [OF z] .
  have b: "remaining its gs1 \<le> remaining its gs"
    using remaining_mono [of gs1 gs its] le1 by blast
  have c: "Suc (remaining [it1] gs1) \<le> remaining [it] gs" using iter_next_Some [OF n] .
  have d: "remaining [it1] gs' \<le> remaining [it1] gs1"
    using remaining_mono [of gs' gs1 "[it1]"] le2 by blast
  show ?case
    unfolding e remaining_Cons [of it1 its1] remaining_Cons [of it its]
    using a b c d by simp
qed

termination zip_rounds
proof (relation "measure (\<lambda>(its, gs). remaining its gs)")
  show "wf (measure (\<lambda>(its, gs). remaining its gs))" by simp
next
  fix its :: "iterator list" and gs :: generators and x gs' row_its row its'
  assume "its \<noteq> []" and "(x, gs') = zip_round its gs" and "x = Some row_its"
    and "(row, its') = row_its"
  then have "zip_round its gs = (Some (row, its'), gs')" by simp
  from zip_round_decreases [OF this] \<open>its \<noteq> []\<close>
  show "((its', gs'), (its, gs)) \<in> measure (\<lambda>(its, gs). remaining its gs)"
    by (cases its) auto
qed

declare zip_rounds.simps [simp del]

section \<open>Rules for computations\<close>

lemma bind_Inr: "m s = (Inr x, s') \<Longrightarrow> bind m f s = f x s'"
  by (simp add: bind_def)

lemma bind_Inl: "m s = (Inl e, s') \<Longrightarrow> bind m f s = (Inl e, s')"
  by (simp add: bind_def)

lemma bind_ret: "bind (ret x) f = f x"
  by (simp add: bind_def ret_def)

lemma bind_raise: "bind (raise e) f = raise e"
  by (simp add: bind_def raise_def)


lemma bind_lift_Inl: "bind (lift (Inl e)) f = raise e"
  by (simp add: bind_def lift_def raise_def)

lemma bind_cases:
  "bind m f s = (r, s'') \<Longrightarrow>
     (\<exists>e. m s = (Inl e, s'') \<and> r = Inl e) \<or> (\<exists>x s'. m s = (Inr x, s') \<and> f x s' = (r, s''))"
  by (auto simp: bind_def split: prod.splits sum.splits)

lemma bind_Inr_cases:
  "bind m f s = (Inr y, s'') \<Longrightarrow> \<exists>x s'. m s = (Inr x, s') \<and> f x s' = (Inr y, s'')"
  by (auto dest: bind_cases)

lemma for_each_append:
  "for_each (xs @ ys) body acc s =
     (case for_each xs body acc s of
        (Inl e, s') \<Rightarrow> (Inl e, s')
      | (Inr acc', s') \<Rightarrow> for_each ys body acc' s')"
  by (induction xs arbitrary: acc s) (auto split: prod.splits sum.splits)

section \<open>Appending to the history\<close>

lemma recorded_setdefault_append:
  "recorded (setdefault_append h k v) key =
     (if key = k then recorded h key @ [v] else recorded h key)"
  by (induction h k v rule: setdefault_append.induct) (auto simp: recorded_def)

lemma keys_setdefault_append:
  "fst ` set (setdefault_append h k v) = insert k (fst ` set h)"
  by (induction h k v rule: setdefault_append.induct) auto

lemma append_all_Nil: "append_all h [] = h"
  by (simp add: append_all_def)

lemma append_all_Cons:
  "append_all h (kv # kvs) = append_all (setdefault_append h (fst kv) (snd kv)) kvs"
  by (simp add: append_all_def)

lemma append_all_append: "append_all h (xs @ ys) = append_all (append_all h xs) ys"
  by (simp add: append_all_def)

lemma recorded_append_all:
  "recorded (append_all h entries) key =
     recorded h key @ map snd (filter (\<lambda>kv. fst kv = key) entries)"
  by (induction entries arbitrary: h)
     (auto simp: append_all_Nil append_all_Cons recorded_setdefault_append)

lemma keys_append_all:
  "fst ` set (append_all h entries) = fst ` set h \<union> fst ` set entries"
  by (induction entries arbitrary: h)
     (auto simp: append_all_Nil append_all_Cons keys_setdefault_append)

lemma record_logs_append_all: "record_logs logs h = append_all h (logs_items logs)"
proof -
  have "(\<lambda>h' (k, v). setdefault_append h' k v) = (\<lambda>h' kv. setdefault_append h' (fst kv) (snd kv))"
    by (simp add: fun_eq_iff)
  then show ?thesis by (simp add: record_logs_def append_all_def logs_items_def)
qed

section \<open>Destructuring the documented shapes\<close>

lemma destructure_generator_shape:
  "destructure (PTuple [PTuple [g, s], name]) gs =
     (Inr \<lparr> validation_generator = g, validation_steps = s, validation_data = PNone,
            validation_targets = PNone, sample_weights = PNone, validation_set_name = name \<rparr>, gs)"
  by (simp add: destructure_def bind_def lift_def ret_def)

lemma destructure_array_shape:
  "destructure (PTuple [data, targets, name]) gs =
     (Inr \<lparr> validation_generator = PNone, validation_steps = PNone, validation_data = data,
            validation_targets = targets, sample_weights = PNone, validation_set_name = name \<rparr>, gs)"
  by (simp add: destructure_def bind_def lift_def ret_def)

lemma destructure_weighted_shape:
  "destructure (PTuple [data, targets, weights, name]) gs =
     (Inr \<lparr> validation_generator = PNone, validation_steps = PNone, validation_data = data,
            validation_targets = targets, sample_weights = weights, validation_set_name = name \<rparr>, gs)"
  by (simp add: destructure_def bind_def lift_def ret_def)



section \<open>Recording\<close>

lemma enumerate_list_bound: "ir \<in> set (enumerate_list xs) \<Longrightarrow> fst ir < length xs"
  by (cases ir) (auto simp: enumerate_list_def dest!: set_zip_leftD)

lemma enumerate_list_nth:
  "i < length xs \<Longrightarrow> enumerate_list xs ! i = (i, xs ! i)"
  by (simp add: enumerate_list_def)

lemma length_enumerate_list: "length (enumerate_list xs) = length xs"
  by (simp add: enumerate_list_def)

lemma record_metric_Inr:
  assumes "model (self w) = Some trained" and "fst ir < length (metrics_names trained)"
  shows "record_metric pfx (PStr name) ir () w =
     (Inr (),
      w\<lparr> self := (self w)\<lparr> history :=
              setdefault_append (history (self w))
                (pfx @ name @ ''_'' @ metrics_names trained ! fst ir) (snd ir) \<rparr>,
         printed := printed w @
           (if verbose (self w) = 1
            then [(pfx @ name @ ''_'' @ metrics_names trained ! fst ir, snd ir)] else []) \<rparr>)"
  using assms
  by (simp add: record_metric_def metric_key_def metric_name_def history_append_def print2_def
      bind_def lift_def)

lemma metric_loop:
  assumes "model (self w) = Some trained"
      and "\<forall>ir \<in> set irs. fst ir < length (metrics_names trained)"
  shows "for_each irs (record_metric pfx (PStr name)) () w =
     (Inr (),
      w\<lparr> self := (self w)\<lparr> history :=
              append_all (history (self w))
                (map (\<lambda>ir. (pfx @ name @ ''_'' @ metrics_names trained ! fst ir, snd ir)) irs) \<rparr>,
         printed := printed w @
           (if verbose (self w) = 1
            then map (\<lambda>ir. (pfx @ name @ ''_'' @ metrics_names trained ! fst ir, snd ir)) irs
            else []) \<rparr>)"
  using assms
proof (induction irs arbitrary: w)
  case Nil
  show ?case by (simp add: append_all_Nil)
next
  case (Cons ir irs)
  let ?w1 = "w\<lparr> self := (self w)\<lparr> history :=
              setdefault_append (history (self w))
                (pfx @ name @ ''_'' @ metrics_names trained ! fst ir) (snd ir) \<rparr>,
         printed := printed w @
           (if verbose (self w) = 1
            then [(pfx @ name @ ''_'' @ metrics_names trained ! fst ir, snd ir)] else []) \<rparr>"
  have step: "record_metric pfx (PStr name) ir () w = (Inr (), ?w1)"
    using Cons.prems by (intro record_metric_Inr) auto
  have m1: "model (self ?w1) = Some trained" using Cons.prems by simp
  have rest: "\<forall>ir \<in> set irs. fst ir < length (metrics_names trained)" using Cons.prems by simp
  have "for_each (ir # irs) (record_metric pfx (PStr name)) () w =
        for_each irs (record_metric pfx (PStr name)) () ?w1"
    by (simp only: for_each.simps step prod.case sum.case)
  also note Cons.IH [OF m1 rest]
  finally show ?case
    by (simp add: append_all_Cons)
qed

lemma record_bundle_on:
  "record_predictions (self w) \<Longrightarrow> p \<noteq> PNone \<Longrightarrow>
     record_bundle pfx (PStr name) p w =
       (Inr (), w\<lparr> self := (self w)\<lparr> history :=
           setdefault_append (history (self w)) (pfx @ name @ ''_predictions'') p \<rparr> \<rparr>)"
  by (simp add: record_bundle_def bind_def lift_def history_append_def)

lemma record_bundle_off:
  "\<not> record_predictions (self w) \<Longrightarrow> record_bundle pfx name p w = (Inr (), w)"
  by (simp add: record_bundle_def)

lemma recording:
  assumes t: "model (self w) = Some trained"
      and l: "length values \<le> length (metrics_names trained)"
      and p: "record_predictions (self w) \<longrightarrow> p \<noteq> PNone"
  shows "bind (record_bundle pfx (PStr name) p)
           (\<lambda>_. for_each (enumerate_list values) (record_metric pfx (PStr name)) ()) w =
     (Inr (),
      w\<lparr> self := (self w)\<lparr> history :=
              append_all (history (self w))
                (set_entries pfx name (metrics_names trained) (record_predictions (self w)) p values) \<rparr>,
         printed := printed w @
           (if verbose (self w) = 1
            then metric_entries pfx name (metrics_names trained) values else []) \<rparr>)"
proof -
  have b: "\<forall>ir \<in> set (enumerate_list values). fst ir < length (metrics_names trained)"
    using l enumerate_list_bound by fastforce
  show ?thesis
  proof (cases "record_predictions (self w)")
    case True
    let ?w1 = "w\<lparr> self := (self w)\<lparr> history :=
           setdefault_append (history (self w)) (pfx @ name @ ''_predictions'') p \<rparr> \<rparr>"
    have s1: "record_bundle pfx (PStr name) p w = (Inr (), ?w1)"
      using True p by (simp add: record_bundle_on)
    have m1: "model (self ?w1) = Some trained" using t by simp
    have "bind (record_bundle pfx (PStr name) p)
           (\<lambda>_. for_each (enumerate_list values) (record_metric pfx (PStr name)) ()) w =
          for_each (enumerate_list values) (record_metric pfx (PStr name)) () ?w1"
      by (simp only: bind_def s1 prod.case sum.case)
    also note metric_loop [OF m1 b]
    finally show ?thesis
      using True by (simp add: set_entries_def metric_entries_def append_all_Cons)
  next
    case False
    have s1: "record_bundle pfx (PStr name) p w = (Inr (), w)"
      using False by (rule record_bundle_off)
    have "bind (record_bundle pfx (PStr name) p)
           (\<lambda>_. for_each (enumerate_list values) (record_metric pfx (PStr name)) ()) w =
          for_each (enumerate_list values) (record_metric pfx (PStr name)) () w"
      by (simp only: bind_def s1 prod.case sum.case)
    also note metric_loop [OF t b]
    finally show ?thesis
      using False by (simp add: set_entries_def metric_entries_def)
  qed
qed


section \<open>The value of run_model\<close>

lemma assert_same_length_Inr:
  "assert_same_length p gs = (Inr b, gs') \<Longrightarrow>
     gs' = gs \<and> b = prediction_bundle (fst p) (snd p) \<and> length (fst p) = length (snd p)"
  by (auto simp: assert_same_length_def ret_def raise_def split: if_splits)

lemma assert_same_length_mismatch:
  "length (fst p) \<noteq> length (snd p) \<Longrightarrow> assert_same_length p gs = (Inl AssertionError, gs)"
  by (auto simp: assert_same_length_def raise_def)

lemma run_model_values:
  assumes "run_model cb (Some m) vs gs = (Inr (values, p), gs')"
  shows "\<exists>gs2. (if validation_generator vs \<noteq> PNone
               then evaluate_generator m (validation_generator vs) (validation_steps vs)
               else evaluate m (validation_data vs) (validation_targets vs) 0
                      (sample_weights vs) (batch_size cb)) gs = (Inr values, gs2)"
proof (cases "validation_generator vs \<noteq> PNone")
  case True
  with assms have
    "bind (evaluate_generator m (validation_generator vs) (validation_steps vs)) (\<lambda>results.
        if record_predictions cb then
          bind (reconstruct_generator m vs) (\<lambda>p.
          bind (assert_same_length p) (\<lambda>predictions. ret (results, predictions)))
        else ret (results, PNone)) gs = (Inr (values, p), gs')"
    by (simp add: run_model_def)
  then obtain x s1 where
    e: "evaluate_generator m (validation_generator vs) (validation_steps vs) gs = (Inr x, s1)"
    and k: "(if record_predictions cb then
          bind (reconstruct_generator m vs) (\<lambda>p.
          bind (assert_same_length p) (\<lambda>predictions. ret (x, predictions)))
        else ret (x, PNone)) s1 = (Inr (values, p), gs')"
    by (blast dest: bind_Inr_cases)
  from k have "x = values"
    by (auto simp: ret_def split: if_splits dest!: bind_Inr_cases)
  with e True show ?thesis by auto
next
  case False
  with assms have
    "bind (evaluate m (validation_data vs) (validation_targets vs) 0 (sample_weights vs)
             (batch_size cb)) (\<lambda>results.
        if record_predictions cb then
          bind (reconstruct_arrays m vs) (\<lambda>p.
          bind (assert_same_length p) (\<lambda>predictions. ret (results, predictions)))
        else ret (results, PNone)) gs = (Inr (values, p), gs')"
    by (simp add: run_model_def)
  then obtain x s1 where
    e: "evaluate m (validation_data vs) (validation_targets vs) 0 (sample_weights vs)
          (batch_size cb) gs = (Inr x, s1)"
    and k: "(if record_predictions cb then
          bind (reconstruct_arrays m vs) (\<lambda>p.
          bind (assert_same_length p) (\<lambda>predictions. ret (x, predictions)))
        else ret (x, PNone)) s1 = (Inr (values, p), gs')"
    by (blast dest: bind_Inr_cases)
  from k have "x = values"
    by (auto simp: ret_def split: if_splits dest!: bind_Inr_cases)
  with e False show ?thesis by auto
qed

lemma run_model_bundle:
  assumes "run_model cb model' vs gs = (Inr (values, p), gs')" and "record_predictions cb"
  shows "\<exists>y_pred y_true. p = prediction_bundle y_pred y_true \<and> length y_pred = length y_true"
proof (cases model')
  case None
  with assms show ?thesis
    by (auto simp: run_model_def ret_def raise_def split: option.splits)
next
  case (Some m)
  have k: "\<exists>y_pred y_true. p = prediction_bundle y_pred y_true \<and> length y_pred = length y_true"
    if "bind c (\<lambda>q. bind (assert_same_length q) (\<lambda>predictions. ret (x, predictions))) s
          = (Inr (values, p), gs')" for c :: "(generators, pyval list \<times> pyval list) comp" and x s
  proof -
    from that obtain q s1 where
      "bind (assert_same_length q) (\<lambda>predictions. ret (x, predictions)) s1 = (Inr (values, p), gs')"
      by (blast dest: bind_Inr_cases)
    then obtain b s2 where a: "assert_same_length q s1 = (Inr b, s2)"
      and "ret (x, b) s2 = (Inr (values, p), gs')"
      by (blast dest: bind_Inr_cases)
    then have "b = p" by (simp add: ret_def)
    with assert_same_length_Inr [OF a] show ?thesis by blast
  qed
  show ?thesis
  proof (cases "validation_generator vs \<noteq> PNone")
    case True
    with assms Some have
      "bind (evaluate_generator m (validation_generator vs) (validation_steps vs)) (\<lambda>results.
          bind (reconstruct_generator m vs) (\<lambda>p.
          bind (assert_same_length p) (\<lambda>predictions. ret (results, predictions)))) gs
         = (Inr (values, p), gs')"
      by (simp add: run_model_def)
    then show ?thesis by (blast dest: bind_Inr_cases k)
  next
    case False
    with assms Some have
      "bind (evaluate m (validation_data vs) (validation_targets vs) 0 (sample_weights vs)
             (batch_size cb)) (\<lambda>results.
          bind (reconstruct_arrays m vs) (\<lambda>p.
          bind (assert_same_length p) (\<lambda>predictions. ret (results, predictions)))) gs
         = (Inr (values, p), gs')"
      by (simp add: run_model_def)
    then show ?thesis by (blast dest: bind_Inr_cases k)
  qed
qed

lemma prediction_bundle_not_None: "prediction_bundle y_pred y_true \<noteq> PNone"
  by (simp add: prediction_bundle_def)


section \<open>The loop body\<close>

lemma evaluate_set_recorded:
  assumes d: "destructure validation_set (gens w) = (Inr vs, gs1)"
      and r: "run_model (self w) model' vs gs1 = (Inr (values, predictions), gs2)"
      and n: "validation_set_name vs = PStr name"
      and t: "model (self w) = Some trained"
      and l: "length values \<le> length (metrics_names trained)"
  shows "evaluate_set pfx model' validation_set () w =
     (Inr (),
      w\<lparr> self := (self w)\<lparr> history :=
              append_all (history (self w))
                (set_entries pfx name (metrics_names trained) (record_predictions (self w))
                   predictions values) \<rparr>,
         gens := gs2,
         printed := printed w @
           (if verbose (self w) = 1
            then metric_entries pfx name (metrics_names trained) values else []) \<rparr>)"
proof -
  let ?w1 = "w\<lparr> gens := gs1 \<rparr>" and ?w2 = "w\<lparr> gens := gs2 \<rparr>"
  let ?rec = "\<lambda>rp. bind (record_bundle pfx (validation_set_name vs) (snd rp)) (\<lambda>_.
     for_each (enumerate_list (fst rp)) (record_metric pfx (validation_set_name vs)) ())"
  have s1: "on_gens (destructure validation_set) w = (Inr vs, ?w1)"
    by (simp add: on_gens_def d)
  have s2: "on_gens (run_model (self ?w1) model' vs) ?w1 = (Inr (values, predictions), ?w2)"
    by (simp add: on_gens_def r)
  have p: "record_predictions (self ?w2) \<longrightarrow> predictions \<noteq> PNone"
    using run_model_bundle [OF r] by (auto simp: prediction_bundle_def)
  have t2: "model (self ?w2) = Some trained" using t by simp
  have "evaluate_set pfx model' validation_set () w = ?rec (values, predictions) ?w2"
    unfolding evaluate_set_def
    by (simp only: bind_def s1 s2 prod.case sum.case)
  also have "\<dots> = bind (record_bundle pfx (PStr name) predictions) (\<lambda>_.
     for_each (enumerate_list values) (record_metric pfx (PStr name)) ()) ?w2"
    by (simp only: fst_conv snd_conv n)
  also note recording [OF t2 l p]
  finally show ?thesis by simp
qed

lemma metric_entries_nth:
  "metric_entries pfx name names values =
     map (\<lambda>i. (pfx @ name @ ''_'' @ names ! i, values ! i)) [0..<length values]"
  by (rule nth_equalityI)
     (simp_all add: metric_entries_def length_enumerate_list enumerate_list_nth)


section \<open>The loop over the validation sets\<close>

lemma on_epoch_end_with_loop:
  "on_epoch_end_with pfx mte ep logs w =
     (if validation_sets (self w) = [] then (Inr (), w\<lparr> self := after_logs ep logs (self w) \<rparr>)
      else for_each (validation_sets (self w))
             (evaluate_set pfx (mte (after_logs ep logs (self w)))) ()
             (w\<lparr> self := after_logs ep logs (self w) \<rparr>))"
  unfolding on_epoch_end_with_def Let_def
  by (simp add: after_logs_def record_logs_append_all)

lemma on_epoch_end_with_at:
  assumes sets: "validation_sets (self w) = before @ validation_set # rest"
      and pre: "for_each before (evaluate_set pfx (mte (after_logs ep logs (self w)))) ()
                  (w\<lparr> self := after_logs ep logs (self w) \<rparr>) = (Inr (), w3)"
  shows "on_epoch_end_with pfx mte ep logs w =
     (case evaluate_set pfx (mte (after_logs ep logs (self w))) validation_set () w3 of
        (Inl e, w4) \<Rightarrow> (Inl e, w4)
      | (Inr u, w4) \<Rightarrow>
          for_each rest (evaluate_set pfx (mte (after_logs ep logs (self w)))) () w4)"
proof -
  have "on_epoch_end_with pfx mte ep logs w =
      for_each (before @ validation_set # rest)
        (evaluate_set pfx (mte (after_logs ep logs (self w)))) ()
        (w\<lparr> self := after_logs ep logs (self w) \<rparr>)"
    by (simp add: on_epoch_end_with_loop sets)
  also have "\<dots> = for_each (validation_set # rest)
        (evaluate_set pfx (mte (after_logs ep logs (self w)))) () w3"
    by (simp only: for_each_append pre prod.case sum.case)
  finally show ?thesis by (simp split: prod.splits sum.splits)
qed

section \<open>The history only grows\<close>

text \<open>
  Whatever \<^verbatim>\<open>on_epoch_end\<close> returns or raises, it leaves the callback as lines 41-47
  made it, with values appended to the history; so a history that \<^verbatim>\<open>__init__\<close> or
  \<^verbatim>\<open>on_train_begin\<close> emptied and that \<^verbatim>\<open>on_epoch_end\<close> filled has no empty
  sequence.
\<close>

lemma grows_refl: "grows w w"
  unfolding grows_def by (rule exI [of _ "[]"]) (simp add: append_all_Nil)

lemma grows_trans: "grows w w' \<Longrightarrow> grows w' w'' \<Longrightarrow> grows w w''"
  unfolding grows_def
proof (elim exE)
  fix es es'
  assume a: "self w' = (self w)\<lparr> history := append_all (history (self w)) es \<rparr>"
    and b: "self w'' = (self w')\<lparr> history := append_all (history (self w')) es' \<rparr>"
  have "self w'' = (self w)\<lparr> history := append_all (history (self w)) (es @ es') \<rparr>"
    by (simp add: a b append_all_append)
  then show "\<exists>entries. self w'' = (self w)\<lparr> history := append_all (history (self w)) entries \<rparr>"
    by blast
qed

lemma grows_same_self: "self w' = self w \<Longrightarrow> grows w w'"
  unfolding grows_def by (rule exI [of _ "[]"]) (simp add: append_all_Nil)

lemma bind_grows:
  assumes m: "\<And>r w'. m w = (r, w') \<Longrightarrow> grows w w'"
      and f: "\<And>x w1 r w'. f x w1 = (r, w') \<Longrightarrow> grows w1 w'"
      and b: "bind m f w = (r, w')"
  shows "grows w w'"
proof -
  from bind_cases [OF b] show ?thesis
  proof (elim disjE exE conjE)
    fix e assume "m w = (Inl e, w')"
    then show ?thesis by (rule m)
  next
    fix x w1 assume "m w = (Inr x, w1)" and "f x w1 = (r, w')"
    then show ?thesis using m f grows_trans by blast
  qed
qed

lemma for_each_grows:
  assumes body: "\<And>x acc w1 r w'. body x acc w1 = (r, w') \<Longrightarrow> grows w1 w'"
      and loop: "for_each xs body acc w = (r, w')"
  shows "grows w w'"
  using loop
proof (induction xs arbitrary: acc w)
  case Nil
  then show ?case by (auto simp: grows_refl)
next
  case (Cons x xs)
  obtain r1 w1 where s: "body x acc w = (r1, w1)" by (cases "body x acc w")
  then have g1: "grows w w1" by (rule body)
  show ?case
  proof (cases r1)
    case (Inl e)
    with s Cons.prems have "w' = w1" by simp
    with g1 show ?thesis by simp
  next
    case (Inr acc1)
    with s Cons.prems have "for_each xs body acc1 w1 = (r, w')" by simp
    from Cons.IH [OF this] g1 show ?thesis using grows_trans by blast
  qed
qed

lemma on_gens_grows: "on_gens c w = (r, w') \<Longrightarrow> grows w w'"
  by (rule grows_same_self) (auto simp: on_gens_def split: prod.splits)

lemma lift_grows: "lift x w = (r, w') \<Longrightarrow> grows w w'"
  by (auto simp: lift_def grows_refl)

lemma raise_grows: "raise e w = (r, w') \<Longrightarrow> grows w w'"
  by (auto simp: raise_def grows_refl)

lemma history_append_grows: "history_append key v w = (r, w') \<Longrightarrow> grows w w'"
  unfolding grows_def
  by (rule exI [of _ "[(key, v)]"]) (auto simp: history_append_def append_all_def)

lemma print2_grows: "print2 s v w = (r, w') \<Longrightarrow> grows w w'"
  by (rule grows_same_self) (auto simp: print2_def)

lemma record_bundle_grows: "record_bundle pfx name p w = (r, w') \<Longrightarrow> grows w w'"
proof (cases "record_predictions (self w)")
  case False
  assume "record_bundle pfx name p w = (r, w')"
  with False show ?thesis by (auto simp: record_bundle_def grows_refl)
next
  case True
  assume "record_bundle pfx name p w = (r, w')"
  with True have b: "bind (lift (py_str_add pfx name)) (\<lambda>s.
               if p = PNone then raise AssertionError
               else history_append (s @ ''_predictions'') p) w = (r, w')"
    by (simp add: record_bundle_def)
  show ?thesis
  proof (rule bind_grows [OF _ _ b])
    show "\<And>r w'. lift (py_str_add pfx name) w = (r, w') \<Longrightarrow> grows w w'"
      by (rule lift_grows)
    show "\<And>x w1 r w'. (if p = PNone then raise AssertionError
               else history_append (x @ ''_predictions'') p) w1 = (r, w') \<Longrightarrow> grows w1 w'"
      by (auto split: if_splits dest: raise_grows history_append_grows)
  qed
qed

lemma record_metric_grows: "record_metric pfx name ir u w = (r, w') \<Longrightarrow> grows w w'"
proof -
  assume "record_metric pfx name ir u w = (r, w')"
  then have b: "bind (lift (metric_key pfx name (fst ir) (self w))) (\<lambda>value_name.
           bind (history_append value_name (snd ir)) (\<lambda>_.
             (\<lambda>w'. if verbose (self w') = 1 then
                     bind (lift (metric_key pfx name (fst ir) (self w'))) (\<lambda>s. print2 s (snd ir)) w'
                   else (Inr (), w')))) w = (r, w')"
    by (simp add: record_metric_def)
  have pr: "grows w1 w2"
    if "(if verbose (self w1) = 1 then
           bind (lift (metric_key pfx name (fst ir) (self w1))) (\<lambda>s. print2 s (snd ir)) w1
         else (Inr (), w1)) = (r', w2)" for w1 r' w2
  proof (cases "verbose (self w1) = 1")
    case False
    with that show ?thesis by (auto simp: grows_refl)
  next
    case True
    with that have "bind (lift (metric_key pfx name (fst ir) (self w1)))
        (\<lambda>s. print2 s (snd ir)) w1 = (r', w2)" by simp
    then show ?thesis
      by (rule bind_grows [rotated 2]) (auto dest: lift_grows print2_grows)
  qed
  show ?thesis
  proof (rule bind_grows [OF _ _ b])
    show "\<And>r w'. lift (metric_key pfx name (fst ir) (self w)) w = (r, w') \<Longrightarrow> grows w w'"
      by (rule lift_grows)
  next
    fix x w1 r' w2
    assume "bind (history_append x (snd ir)) (\<lambda>_ w'.
              if verbose (self w') = 1
              then bind (lift (metric_key pfx name (fst ir) (self w'))) (\<lambda>s. print2 s (snd ir)) w'
              else (Inr (), w')) w1 = (r', w2)"
    then show "grows w1 w2"
      by (rule bind_grows [rotated 2]) (auto dest: history_append_grows pr)
  qed
qed

lemma evaluate_set_grows: "evaluate_set pfx model' v u w = (r, w') \<Longrightarrow> grows w w'"
proof -
  assume "evaluate_set pfx model' v u w = (r, w')"
  then have b: "bind (on_gens (destructure v)) (\<lambda>vs.
     bind (\<lambda>w. on_gens (run_model (self w) model' vs) w) (\<lambda>rp.
     bind (record_bundle pfx (validation_set_name vs) (snd rp)) (\<lambda>_.
     for_each (enumerate_list (fst rp)) (record_metric pfx (validation_set_name vs)) ())))
       w = (r, w')"
    by (simp add: evaluate_set_def)
  have k3: "grows w1 w2"
    if h: "bind (record_bundle pfx name (snd rp)) (\<lambda>_.
          for_each (enumerate_list (fst rp)) (record_metric pfx name) ()) w1 = (r', w2)"
    for name rp w1 r' w2
  proof (rule bind_grows [OF _ _ h])
    show "\<And>r w'. record_bundle pfx name (snd rp) w1 = (r, w') \<Longrightarrow> grows w1 w'"
      by (rule record_bundle_grows)
    show "\<And>x w1 r w'. for_each (enumerate_list (fst rp)) (record_metric pfx name) () w1
            = (r, w') \<Longrightarrow> grows w1 w'"
    proof -
      fix x :: unit and w1 r w'
      assume "for_each (enumerate_list (fst rp)) (record_metric pfx name) () w1 = (r, w')"
      then show "grows w1 w'"
        by (rule for_each_grows [rotated]) (rule record_metric_grows)
    qed
  qed
  have k2: "grows w1 w2"
    if h: "bind (\<lambda>w. on_gens (run_model (self w) model' vs) w) (\<lambda>rp.
          bind (record_bundle pfx (validation_set_name vs) (snd rp)) (\<lambda>_.
          for_each (enumerate_list (fst rp)) (record_metric pfx (validation_set_name vs)) ()))
          w1 = (r', w2)"
    for vs w1 r' w2
  proof (rule bind_grows [OF _ _ h])
    show "\<And>r w'. on_gens (run_model (self w1) model' vs) w1 = (r, w') \<Longrightarrow> grows w1 w'"
      by (rule on_gens_grows)
    show "\<And>x w1 r w'. bind (record_bundle pfx (validation_set_name vs) (snd x)) (\<lambda>_.
          for_each (enumerate_list (fst x)) (record_metric pfx (validation_set_name vs)) ())
          w1 = (r, w') \<Longrightarrow> grows w1 w'"
      by (rule k3)
  qed
  show ?thesis
  proof (rule bind_grows [OF _ _ b])
    show "\<And>r w'. on_gens (destructure v) w = (r, w') \<Longrightarrow> grows w w'"
      by (rule on_gens_grows)
    show "\<And>x w1 r w'. bind (\<lambda>w. on_gens (run_model (self w) model' x) w) (\<lambda>rp.
          bind (record_bundle pfx (validation_set_name x) (snd rp)) (\<lambda>_.
          for_each (enumerate_list (fst rp)) (record_metric pfx (validation_set_name x)) ()))
          w1 = (r, w') \<Longrightarrow> grows w1 w'"
      by (rule k2)
  qed
qed

lemma on_epoch_end_with_grows:
  assumes "on_epoch_end_with pfx mte ep logs w = (r, w')"
  shows "\<exists>entries. self w' =
           (after_logs ep logs (self w))\<lparr> history :=
              append_all (history (after_logs ep logs (self w))) entries \<rparr>"
proof -
  let ?w2 = "w\<lparr> self := after_logs ep logs (self w) \<rparr>"
  have "grows ?w2 w'"
  proof (cases "validation_sets (self w) = []")
    case True
    with assms have "w' = ?w2" by (simp add: on_epoch_end_with_loop)
    then show ?thesis by (simp add: grows_refl)
  next
    case False
    with assms have "for_each (validation_sets (self w))
             (evaluate_set pfx (mte (after_logs ep logs (self w)))) () ?w2 = (r, w')"
      by (simp add: on_epoch_end_with_loop)
    then show ?thesis
      by (rule for_each_grows [rotated]) (rule evaluate_set_grows)
  qed
  then show ?thesis by (simp add: grows_def)
qed

lemma setdefault_append_nonempty:
  "sequences_nonempty h \<Longrightarrow> sequences_nonempty (setdefault_append h k v)"
  by (induction h k v rule: setdefault_append.induct) (auto simp: sequences_nonempty_def)

lemma append_all_nonempty:
  "sequences_nonempty h \<Longrightarrow> sequences_nonempty (append_all h entries)"
  by (induction entries arbitrary: h)
     (auto simp: append_all_Nil append_all_Cons setdefault_append_nonempty)

lemma init_nonempty: "init vs vb bs roh rp = Inr cb \<Longrightarrow> sequences_nonempty (history cb)"
  by (auto simp: init_def sequences_nonempty_def split: sum.splits)

lemma on_train_begin_nonempty: "sequences_nonempty (history (on_train_begin logs cb))"
  by (simp add: on_train_begin_def sequences_nonempty_def)

lemma on_epoch_end_with_nonempty:
  assumes "sequences_nonempty (history (self w))"
      and "on_epoch_end_with pfx mte ep logs w = (r, w')"
  shows "sequences_nonempty (history (self w'))"
proof -
  from on_epoch_end_with_grows [OF assms(2)] obtain entries where
    "self w' = (after_logs ep logs (self w))\<lparr> history :=
              append_all (history (after_logs ep logs (self w))) entries \<rparr>" by blast
  moreover have "sequences_nonempty (history (after_logs ep logs (self w)))"
    using assms(1) by (simp add: after_logs_def append_all_nonempty)
  ultimately show ?thesis by (simp add: append_all_nonempty)
qed

lemma sequences_nonempty_iff: "sequences_nonempty h \<longleftrightarrow> (\<forall>kv \<in> set h. snd kv \<noteq> [])"
  by (simp add: sequences_nonempty_def list_all_iff)

section \<open>Construction validates the arity\<close>

lemma check_arities_fails_iff:
  "isl (check_arities vs) \<longleftrightarrow> (\<exists>v \<in> set vs. py_len v \<notin> {Inr 2, Inr 3, Inr 4})"
proof (induction vs)
  case Nil
  show ?case by simp
next
  case (Cons v vs)
  show ?case
  proof (cases "py_len v")
    case (Inl e)
    then show ?thesis by auto
  next
    case (Inr n)
    with Cons show ?thesis by auto
  qed
qed

lemma init_fails_iff:
  "isl (init vs vb bs roh rp) \<longleftrightarrow> isl (check_arities vs)"
  by (simp add: init_def split: sum.splits)

text \<open>
  C3. Construction raises exactly when some element of the validation-set list has a
  length that is not 2, 3 or 4 (an element with no length at all makes \<^verbatim>\<open>len\<close> itself
  raise); otherwise it succeeds and returns the callback with an empty history, an empty
  epoch list and the given configuration.
\<close>

theorem init_raises_iff_bad_arity:
  "(isl (init vs vb bs roh rp) \<longleftrightarrow> (\<exists>v \<in> set vs. py_len v \<notin> {Inr 2, Inr 3, Inr 4}))
   \<and> (\<not> isl (init vs vb bs roh rp) \<longleftrightarrow>
        init vs vb bs roh rp =
          Inr \<lparr> record_predictions = rp, validation_sets = vs, epoch = [], history = [],
                verbose = vb, batch_size = bs, record_original_history = roh, model = None \<rparr>)"
proof -
  have a: "isl (init vs vb bs roh rp) \<longleftrightarrow> (\<exists>v \<in> set vs. py_len v \<notin> {Inr 2, Inr 3, Inr 4})"
    by (simp only: init_fails_iff check_arities_fails_iff)
  have b: "\<not> isl (init vs vb bs roh rp) \<longleftrightarrow>
        init vs vb bs roh rp =
          Inr \<lparr> record_predictions = rp, validation_sets = vs, epoch = [], history = [],
                verbose = vb, batch_size = bs, record_original_history = roh, model = None \<rparr>"
    by (auto simp: init_def split: sum.splits)
  from a b show ?thesis by blast
qed

theorem init_raises_iff_bad_arity_witness:
  "isl (init [PTuple [PArr [], PArr [], PStr ''a''], PTuple [PStr ''b'']] 0 PNone True False)
   \<and> isl (init [PInt 5] 0 PNone True False)
   \<and> init [PTuple [PArr [], PArr [], PStr ''a'']] 0 PNone True False =
       Inr \<lparr> record_predictions = False,
             validation_sets = [PTuple [PArr [], PArr [], PStr ''a'']], epoch = [],
             history = [], verbose = 0, batch_size = PNone, record_original_history = True,
             model = None \<rparr>"
proof -
  have bad1: "\<exists>v \<in> set [PTuple [PArr [], PArr [], PStr ''a''], PTuple [PStr ''b'']].
                py_len v \<notin> {Inr 2, Inr 3, Inr 4}"
    by simp
  have bad2: "\<exists>v \<in> set [PInt 5]. py_len v \<notin> {Inr 2, Inr 3, Inr 4}"
    by simp
  have good: "\<not> (\<exists>v \<in> set [PTuple [PArr [], PArr [], PStr ''a'']].
                py_len v \<notin> {Inr 2, Inr 3, Inr 4})"
    by simp
  from bad1 bad2 good
    init_raises_iff_bad_arity
      [of "[PTuple [PArr [], PArr [], PStr ''a''], PTuple [PStr ''b'']]" 0 PNone True False]
    init_raises_iff_bad_arity [of "[PInt 5]" 0 PNone True False]
    init_raises_iff_bad_arity [of "[PTuple [PArr [], PArr [], PStr ''a'']]" 0 PNone True False]
  show ?thesis by blast
qed

lemma documented_shape_len:
  "documented_shape v \<Longrightarrow> py_len v \<in> {Inr 2, Inr 3, Inr 4}"
  by (auto simp: documented_shape_def split: pyval.splits list.splits)

text \<open>
  C8, as the code has it. The claim that construction validates the full shape of each
  validation set fails: a 2-tuple of two integers is none of the documented shapes and
  is accepted.
\<close>

theorem init_accepts_wrong_structure:
  "\<not> documented_shape (PTuple [PInt 1, PInt 2])
   \<and> \<not> isl (init [PTuple [PInt 1, PInt 2]] 0 PNone True False)"
  by (simp add: documented_shape_def is_str_def init_def)

text \<open>
  C8, amended. Every list of validation sets of the documented shapes is accepted, and
  construction looks at nothing but the lengths: two lists whose elements have the same
  lengths are both accepted or both rejected.
\<close>

theorem init_validates_arity_only:
  "((\<forall>v \<in> set vs. documented_shape v) \<longrightarrow> \<not> isl (init vs vb bs roh rp))
   \<and> (map py_len vs = map py_len vs' \<longrightarrow>
        isl (init vs vb bs roh rp) = isl (init vs' vb bs roh rp))"
proof -
  have a: "\<not> isl (init vs vb bs roh rp)" if "\<forall>v \<in> set vs. documented_shape v"
  proof -
    from that documented_shape_len
    have "\<not> (\<exists>v \<in> set vs. py_len v \<notin> {Inr 2, Inr 3, Inr 4})" by blast
    then show ?thesis unfolding init_fails_iff check_arities_fails_iff .
  qed
  have b: "isl (init vs vb bs roh rp) = isl (init vs' vb bs roh rp)"
    if "map py_len vs = map py_len vs'"
  proof -
    have "(\<exists>v \<in> set vs. py_len v \<notin> {Inr 2, Inr 3, Inr 4})
          \<longleftrightarrow> (\<exists>r \<in> set (map py_len vs). r \<notin> {Inr 2, Inr 3, Inr 4})"
      by auto
    moreover have "(\<exists>v \<in> set vs'. py_len v \<notin> {Inr 2, Inr 3, Inr 4})
          \<longleftrightarrow> (\<exists>r \<in> set (map py_len vs'). r \<notin> {Inr 2, Inr 3, Inr 4})"
      by auto
    ultimately show ?thesis
      using that by (simp only: init_fails_iff check_arities_fails_iff)
  qed
  from a b show ?thesis by blast
qed

theorem init_validates_arity_only_witness:
  "\<not> isl (init [PTuple [PTuple [PGen 0, PInt 2], PStr ''g''], PTuple [PArr [], PArr [], PStr ''a'']] 0 PNone True False)
   \<and> isl (init [PTuple [PInt 1, PInt 2]] 0 PNone True False)
       = isl (init [PStr ''ab''] 0 PNone True False)"
  using init_validates_arity_only
          [of "[PTuple [PTuple [PGen 0, PInt 2], PStr ''g''], PTuple [PArr [], PArr [], PStr ''a'']]"
              0 PNone True False "[]"]
        init_validates_arity_only [of "[PTuple [PInt 1, PInt 2]]" 0 PNone True False "[PStr ''ab'']"]
  by (simp add: documented_shape_def is_str_def)

section \<open>on_train_begin\<close>

text \<open>
  C9. \<^verbatim>\<open>on_train_begin\<close> empties the history and the epoch list, whatever they held,
  and leaves the validation sets, the verbosity, the batch size, the two recording flags
  and the model as they were.
\<close>

theorem on_train_begin_resets:
  "history (on_train_begin logs cb) = []
   \<and> epoch (on_train_begin logs cb) = []
   \<and> validation_sets (on_train_begin logs cb) = validation_sets cb
   \<and> verbose (on_train_begin logs cb) = verbose cb
   \<and> batch_size (on_train_begin logs cb) = batch_size cb
   \<and> record_original_history (on_train_begin logs cb) = record_original_history cb
   \<and> record_predictions (on_train_begin logs cb) = record_predictions cb
   \<and> model (on_train_begin logs cb) = model cb"
  by (simp add: on_train_begin_def)

section \<open>results\<close>

lemma comprehension_Inr:
  "(\<And>x. x \<in> set xs \<Longrightarrow> f x = Inr (g x)) \<Longrightarrow> comprehension f xs = Inr (map g xs)"
  by (induction xs) auto

lemma last_recorded_Inr:
  "map_of h k = Some vs \<Longrightarrow> vs \<noteq> [] \<Longrightarrow> last_recorded h k = Inr (k, last vs)"
  by (simp add: last_recorded_def dict_get_def last_conv_nth)

lemma map_of_dict_set: "map_of (dict_set d k v) = (map_of d)(k \<mapsto> v)"
  by (induction d k v rule: dict_set.induct) auto

lemma keys_dict_set: "fst ` set (dict_set d k v) = insert k (fst ` set d)"
  by (induction d k v rule: dict_set.induct) auto

lemma dict_set_new: "k \<notin> fst ` set d \<Longrightarrow> dict_set d k v = d @ [(k, v)]"
  by (induction d k v rule: dict_set.induct) auto

lemma map_of_dict_comprehension:
  "map_of (foldl (\<lambda>rs (key, v). dict_set rs key v) d (map (\<lambda>k. (k, g k)) ks)) k' =
     (if k' \<in> set ks then Some (g k') else map_of d k')"
  by (induction ks arbitrary: d) (auto simp: map_of_dict_set)

lemma keys_dict_comprehension:
  "fst ` set (foldl (\<lambda>rs (key, v). dict_set rs key v) d ps) = fst ` set d \<union> fst ` set ps"
proof (induction ps arbitrary: d)
  case Nil
  show ?case by simp
next
  case (Cons p ps)
  obtain k v where p: "p = (k, v)" by (cases p)
  show ?case by (simp add: p Cons.IH keys_dict_set)
qed

lemma dict_comprehension_distinct:
  "distinct (map fst (d @ ps)) \<Longrightarrow> foldl (\<lambda>rs (key, v). dict_set rs key v) d ps = d @ ps"
proof (induction ps arbitrary: d)
  case Nil
  show ?case by simp
next
  case (Cons p ps)
  obtain k v where p: "p = (k, v)" by (cases p)
  from Cons.prems have "k \<notin> fst ` set d" by (auto simp: p)
  then have "dict_set d k v = d @ [(k, v)]" by (rule dict_set_new)
  moreover from Cons.prems have "distinct (map fst ((d @ [(k, v)]) @ ps))" by (simp add: p)
  ultimately show ?case using Cons.IH [of "d @ [(k, v)]"] by (simp add: p)
qed

text \<open>
  C7, amended. On an empty history \<^verbatim>\<open>results\<close> returns \<^verbatim>\<open>None\<close>. On a history
  that is not empty and whose recorded sequences are not empty either, it returns a
  dictionary with exactly the keys of the history, each mapped to the last value of its
  sequence, in the order of the history.
\<close>

theorem results_last_values:
  "(history cb = [] \<longrightarrow> results cb = Inr None)
   \<and> (history cb \<noteq> [] \<and> (\<forall>kv \<in> set (history cb). snd kv \<noteq> []) \<longrightarrow>
        (\<exists>r. results cb = Inr (Some r)
           \<and> fst ` set r = fst ` set (history cb)
           \<and> (\<forall>k vs. map_of (history cb) k = Some vs \<longrightarrow> map_of r k = Some (last vs))
           \<and> (distinct (map fst (history cb)) \<longrightarrow>
                r = map (\<lambda>kv. (fst kv, last (snd kv))) (history cb))))"
proof -
  define h where "h = history cb"
  define g where "g = (\<lambda>k. last (the (map_of h k)))"
  define r where "r = foldl (\<lambda>rs (key, v). dict_set rs key v) [] (map (\<lambda>k. (k, g k)) (map fst h))"
  have empty: "results cb = Inr None" if "h = []"
    using that by (simp add: results_def h_def)
  have full: "results cb = Inr (Some r)
           \<and> fst ` set r = fst ` set h
           \<and> (\<forall>k vs. map_of h k = Some vs \<longrightarrow> map_of r k = Some (last vs))
           \<and> (distinct (map fst h) \<longrightarrow> r = map (\<lambda>kv. (fst kv, last (snd kv))) h)"
    if ne: "h \<noteq> []" and seqs: "\<forall>kv \<in> set h. snd kv \<noteq> []"
  proof -
    have each: "last_recorded h k = Inr (k, g k)" if "k \<in> set (map fst h)" for k
    proof -
      from that obtain vs where m: "map_of h k = Some vs"
        by (cases "map_of h k") (auto simp: map_of_eq_None_iff)
      then have "(k, vs) \<in> set h" by (rule map_of_SomeD)
      with seqs have "vs \<noteq> []" by auto
      with m show ?thesis by (simp add: last_recorded_Inr g_def)
    qed
    have "comprehension (last_recorded h) (map fst h) = Inr (map (\<lambda>k. (k, g k)) (map fst h))"
      by (rule comprehension_Inr) (rule each)
    with ne have res: "results cb = Inr (Some r)"
      by (simp add: results_def h_def [symmetric] r_def)
    have keys: "fst ` set r = fst ` set h"
      unfolding r_def keys_dict_comprehension by (auto simp: image_image)
    have look: "map_of r k = Some (last vs)" if "map_of h k = Some vs" for k vs
    proof -
      from that have "k \<in> set (map fst h)"
        by (metis map_of_eq_None_iff option.distinct(1) set_map)
      then show ?thesis
        unfolding r_def map_of_dict_comprehension using that by (simp add: g_def)
    qed
    have ordered: "r = map (\<lambda>kv. (fst kv, last (snd kv))) h" if d: "distinct (map fst h)"
    proof -
      have "distinct (map fst ([] @ map (\<lambda>k. (k, g k)) (map fst h)))"
        using d by (simp add: comp_def)
      then have "foldl (\<lambda>rs (key, v). dict_set rs key v) [] (map (\<lambda>k. (k, g k)) (map fst h))
                 = [] @ map (\<lambda>k. (k, g k)) (map fst h)"
        by (rule dict_comprehension_distinct)
      then have "r = map (\<lambda>k. (k, g k)) (map fst h)"
        unfolding r_def by simp
      also have "\<dots> = map (\<lambda>kv. (fst kv, last (snd kv))) h"
      proof -
        have "g (fst kv) = last (snd kv)" if "kv \<in> set h" for kv
        proof -
          from d that have "map_of h (fst kv) = Some (snd kv)" by (cases kv) simp
          then show ?thesis by (simp add: g_def)
        qed
        then show ?thesis by simp
      qed
      finally show ?thesis .
    qed
    from res keys look ordered show ?thesis by blast
  qed
  from empty full show ?thesis unfolding h_def by blast
qed

theorem results_last_values_witness:
  "results \<lparr> record_predictions = False, validation_sets = [], epoch = [0, 1],
             history = [(''loss'', [PFloat 3, PFloat 2]), (''a_loss'', [PNan, PFloat 1])],
             verbose = 0, batch_size = PNone, record_original_history = True, model = None \<rparr>
     = Inr (Some [(''loss'', PFloat 2), (''a_loss'', PFloat 1)])"
  using results_last_values
    [of "\<lparr> record_predictions = False, validation_sets = [], epoch = [0, 1],
             history = [(''loss'', [PFloat 3, PFloat 2]), (''a_loss'', [PNan, PFloat 1])],
             verbose = 0, batch_size = PNone, record_original_history = True, model = None \<rparr>"]
  by auto

text \<open>
  C7, as the code has it. On the empty history the result is \<^verbatim>\<open>None\<close>, not an empty
  mapping.
\<close>

theorem results_empty_history_is_None:
  "results \<lparr> record_predictions = False, validation_sets = [], epoch = [],
             history = [], verbose = 0, batch_size = PNone, record_original_history = True,
             model = None \<rparr> = Inr None
   \<and> results \<lparr> record_predictions = False, validation_sets = [], epoch = [],
             history = [], verbose = 0, batch_size = PNone, record_original_history = True,
             model = None \<rparr> \<noteq> Inr (Some [])"
  by (simp add: results_def)

section \<open>on_epoch_end: the logs\<close>

text \<open>
  C10. \<^verbatim>\<open>on_epoch_end\<close> first appends the epoch and, when
  \<^verbatim>\<open>record_original_history\<close> is set, every value of the logs (none when the logs
  are \<^verbatim>\<open>None\<close>) under its own key; the validation sets are evaluated from the state
  this leaves. So under each key the recorded sequence grows by exactly the log values of
  that key, the keys of the history grow by exactly the keys of the logs, and nothing of
  the logs is recorded when the flag is off.
\<close>

theorem logs_recorded_first:
  "on_epoch_end_with pfx mte ep logs w =
     (if validation_sets (self w) = [] then (Inr (), w\<lparr> self := after_logs ep logs (self w) \<rparr>)
      else for_each (validation_sets (self w))
             (evaluate_set pfx (mte (after_logs ep logs (self w)))) ()
             (w\<lparr> self := after_logs ep logs (self w) \<rparr>))
   \<and> recorded (history (after_logs ep logs (self w))) key =
       recorded (history (self w)) key
       @ (if record_original_history (self w)
          then map snd (filter (\<lambda>kv. fst kv = key) (logs_items logs)) else [])
   \<and> fst ` set (history (after_logs ep logs (self w))) =
       fst ` set (history (self w))
       \<union> (if record_original_history (self w) then fst ` set (logs_items logs) else {})"
proof -
  have a: "on_epoch_end_with pfx mte ep logs w =
     (if validation_sets (self w) = [] then (Inr (), w\<lparr> self := after_logs ep logs (self w) \<rparr>)
      else for_each (validation_sets (self w))
             (evaluate_set pfx (mte (after_logs ep logs (self w)))) ()
             (w\<lparr> self := after_logs ep logs (self w) \<rparr>))"
    by (rule on_epoch_end_with_loop)
  have b: "recorded (history (after_logs ep logs (self w))) key =
       recorded (history (self w)) key
       @ (if record_original_history (self w)
          then map snd (filter (\<lambda>kv. fst kv = key) (logs_items logs)) else [])"
    by (simp add: after_logs_def recorded_append_all)
  have c: "fst ` set (history (after_logs ep logs (self w))) =
       fst ` set (history (self w))
       \<union> (if record_original_history (self w) then fst ` set (logs_items logs) else {})"
    by (simp add: after_logs_def keys_append_all)
  from a b c show ?thesis by blast
qed

theorem logs_recorded_first_witness:
  "on_epoch_end_with ''p_'' Map.empty 3 (Some [(''loss'', PFloat 5), (''acc'', PFloat 1)])
     \<lparr> self = \<lparr> record_predictions = False, validation_sets = [], epoch = [2],
                 history = [(''loss'', [PFloat 7])], verbose = 0, batch_size = PNone,
                 record_original_history = True, model = None \<rparr>,
       gens = (\<lambda>g. []), printed = [] \<rparr>
   = (Inr (),
      \<lparr> self = \<lparr> record_predictions = False, validation_sets = [], epoch = [2, 3],
                 history = [(''loss'', [PFloat 7, PFloat 5]), (''acc'', [PFloat 1])],
                 verbose = 0, batch_size = PNone,
                 record_original_history = True, model = None \<rparr>,
       gens = (\<lambda>g. []), printed = [] \<rparr>)"
  using logs_recorded_first
    [of "''p_''" Map.empty 3 "Some [(''loss'', PFloat 5), (''acc'', PFloat 1)]"
        "\<lparr> self = \<lparr> record_predictions = False, validation_sets = [], epoch = [2],
                 history = [(''loss'', [PFloat 7])], verbose = 0, batch_size = PNone,
                 record_original_history = True, model = None \<rparr>,
           gens = (\<lambda>g. []), printed = [] \<rparr>" "''loss''"]
  by (simp add: after_logs_def append_all_def logs_items_def)

section \<open>Unfolding the definitions at concrete inputs\<close>

lemmas comp_defs = bind_def ret_def raise_def lift_def on_gens_def

lemmas demo_defs = demo_world_def demo_callback_def demo_model_def demo_batch_def

lemmas body_defs = evaluate_set_def destructure_def run_model_def reconstruct_generator_def
  reconstruct_arrays_def predict_batch_def reformat_batch_def example_at_def
  assert_same_length_def prediction_bundle_def py_zip_star_def record_bundle_def
  record_metric_def metric_key_def metric_name_def history_append_def print2_def
  enumerate_list_def

section \<open>on_epoch_end: the metric keys\<close>

text \<open>
  C1. Take any validation set of the list, the sets before it having been evaluated
  without an exception, and let the model to evaluate be some model. When the evaluation
  of this set returns the metric values and the predictions, its name is a string and
  the trained model has a metric name for each value, then: the values are those the
  evaluate call returned; the call appends to the history, in this order, the prediction
  bundle under \<^verbatim>\<open>prefix + name + '_predictions'\<close> when predictions are recorded and each
  value \<open>values ! i\<close> under \<^verbatim>\<open>prefix + name + '_' + metrics_names[i]\<close>, and goes on
  with the remaining sets; and the sequence recorded under any key grows by exactly the
  appended values of that key.
\<close>

theorem metrics_recorded_under_keys:
  assumes sets: "validation_sets (self w) = before @ validation_set # rest"
      and mte: "mte (after_logs ep logs (self w)) = Some m"
      and pre: "for_each before (evaluate_set pfx (Some m)) ()
                  (w\<lparr> self := after_logs ep logs (self w) \<rparr>) = (Inr (), w3)"
      and d: "destructure validation_set (gens w3) = (Inr vs, gs1)"
      and r: "run_model (self w3) (Some m) vs gs1 = (Inr (values, predictions), gs2)"
      and n: "validation_set_name vs = PStr name"
      and t: "model (self w3) = Some trained"
      and l: "length values \<le> length (metrics_names trained)"
  shows "(\<exists>gs'. (if validation_generator vs \<noteq> PNone
               then evaluate_generator m (validation_generator vs) (validation_steps vs)
               else evaluate m (validation_data vs) (validation_targets vs) 0
                      (sample_weights vs) (batch_size (self w3))) gs1 = (Inr values, gs'))
     \<and> on_epoch_end_with pfx mte ep logs w =
         for_each rest (evaluate_set pfx (Some m)) ()
           (w3\<lparr> self := (self w3)\<lparr> history :=
                   append_all (history (self w3))
                     ((if record_predictions (self w3)
                       then [(pfx @ name @ ''_predictions'', predictions)] else [])
                      @ map (\<lambda>i. (pfx @ name @ ''_'' @ metrics_names trained ! i, values ! i))
                          [0..<length values]) \<rparr>,
               gens := gs2,
               printed := printed w3 @
                 (if verbose (self w3) = 1
                  then map (\<lambda>i. (pfx @ name @ ''_'' @ metrics_names trained ! i, values ! i))
                         [0..<length values]
                  else []) \<rparr>)
     \<and> recorded
          (append_all (history (self w3))
             ((if record_predictions (self w3)
               then [(pfx @ name @ ''_predictions'', predictions)] else [])
              @ map (\<lambda>i. (pfx @ name @ ''_'' @ metrics_names trained ! i, values ! i))
                  [0..<length values])) key =
         recorded (history (self w3)) key
         @ map snd (filter (\<lambda>kv. fst kv = key)
             ((if record_predictions (self w3)
               then [(pfx @ name @ ''_predictions'', predictions)] else [])
              @ map (\<lambda>i. (pfx @ name @ ''_'' @ metrics_names trained ! i, values ! i))
                  [0..<length values]))"
proof -
  have a: "\<exists>gs'. (if validation_generator vs \<noteq> PNone
               then evaluate_generator m (validation_generator vs) (validation_steps vs)
               else evaluate m (validation_data vs) (validation_targets vs) 0
                      (sample_weights vs) (batch_size (self w3))) gs1 = (Inr values, gs')"
    using r by (rule run_model_values)
  have pre': "for_each before (evaluate_set pfx (mte (after_logs ep logs (self w)))) ()
                  (w\<lparr> self := after_logs ep logs (self w) \<rparr>) = (Inr (), w3)"
    using pre by (simp add: mte)
  have b: "on_epoch_end_with pfx mte ep logs w =
         for_each rest (evaluate_set pfx (Some m)) ()
           (w3\<lparr> self := (self w3)\<lparr> history :=
                   append_all (history (self w3))
                     ((if record_predictions (self w3)
                       then [(pfx @ name @ ''_predictions'', predictions)] else [])
                      @ map (\<lambda>i. (pfx @ name @ ''_'' @ metrics_names trained ! i, values ! i))
                          [0..<length values]) \<rparr>,
               gens := gs2,
               printed := printed w3 @
                 (if verbose (self w3) = 1
                  then map (\<lambda>i. (pfx @ name @ ''_'' @ metrics_names trained ! i, values ! i))
                         [0..<length values]
                  else []) \<rparr>)"
    unfolding on_epoch_end_with_at
        [where mte = mte and pfx = pfx and ep = ep and logs = logs, OF sets pre']
      mte evaluate_set_recorded [OF d r n t l]
    by (simp add: set_entries_def metric_entries_nth)
  have c: "recorded
          (append_all (history (self w3))
             ((if record_predictions (self w3)
               then [(pfx @ name @ ''_predictions'', predictions)] else [])
              @ map (\<lambda>i. (pfx @ name @ ''_'' @ metrics_names trained ! i, values ! i))
                  [0..<length values])) key =
         recorded (history (self w3)) key
         @ map snd (filter (\<lambda>kv. fst kv = key)
             ((if record_predictions (self w3)
               then [(pfx @ name @ ''_predictions'', predictions)] else [])
              @ map (\<lambda>i. (pfx @ name @ ''_'' @ metrics_names trained ! i, values ! i))
                  [0..<length values]))"
    by (rule recorded_append_all)
  from a b c show ?thesis by blast
qed


theorem metrics_recorded_under_keys_witness:
  "(\<exists>gs'. evaluate_generator demo_model (PGen 0) (PInt 2) (gens demo_world)
            = (Inr [PFloat 1, PFloat 2], gs'))
   \<and> fst (on_epoch_end 0 None demo_world) = Inr ()
   \<and> history (self (snd (on_epoch_end 0 None demo_world))) =
       [(''g_predictions'',
         [PDict [(''y_pred'', PList [PList [NpInt 5], PList [NpInt 6], PList [NpInt 7], PList [NpInt 8]]),
                 (''y_true'', PList [PList [NpInt 50], PList [NpInt 51], PList [NpInt 70], PList [NpInt 71]])]]),
        (''g_loss'', [PFloat 1]), (''g_acc'', [PFloat 2]),
        (''a_predictions'',
         [PDict [(''y_pred'', PList [PTuple [NpInt 1], PTuple [NpInt 2], PTuple [NpInt 3]]),
                 (''y_true'', PList [PTuple [NpInt 7], PTuple [NpInt 8], PTuple [NpInt 9]])]]),
        (''a_loss'', [PFloat 3]), (''a_acc'', [PFloat 4])]"
proof -
  define w3 where "w3 = demo_world\<lparr> self := after_logs 0 None (self demo_world) \<rparr>"
  define vs where "vs = \<lparr> validation_generator = PGen 0, validation_steps = PInt 2,
     validation_data = PNone, validation_targets = PNone, sample_weights = PNone,
     validation_set_name = PStr ''g'' \<rparr>"
  define p where "p = PDict
     [(''y_pred'', PList [PList [NpInt 5], PList [NpInt 6], PList [NpInt 7], PList [NpInt 8]]),
      (''y_true'', PList [PList [NpInt 50], PList [NpInt 51], PList [NpInt 70], PList [NpInt 71]])]"
  have sets: "validation_sets (self demo_world) =
      [] @ PTuple [PTuple [PGen 0, PInt 2], PStr ''g'']
         # [PTuple [PList [PArr [NpInt 1, NpInt 2, NpInt 3]], PList [PArr [NpInt 7, NpInt 8, NpInt 9]],
                  PStr ''a'']]"
    by (simp add: demo_world_def demo_callback_def)
  have mte: "model_to_evaluate (after_logs 0 None (self demo_world)) = Some demo_model"
    by (simp add: model_to_evaluate_def after_logs_def demo_world_def demo_callback_def)
  have pre: "for_each [] (evaluate_set prefix (Some demo_model)) ()
               (demo_world\<lparr> self := after_logs 0 None (self demo_world) \<rparr>) = (Inr (), w3)"
    by (simp add: w3_def)
  have d: "destructure (PTuple [PTuple [PGen 0, PInt 2], PStr ''g'']) (gens w3)
             = (Inr vs, gens demo_world)"
    by (simp add: destructure_generator_shape vs_def w3_def)
  have "fst (run_model (self w3) (Some demo_model) vs (gens demo_world))
          = Inr ([PFloat 1, PFloat 2], p)"
    by (simp add: w3_def vs_def p_def after_logs_def demo_defs comp_defs body_defs upt_rec)
  then have r: "run_model (self w3) (Some demo_model) vs (gens demo_world)
          = (Inr ([PFloat 1, PFloat 2], p),
             snd (run_model (self w3) (Some demo_model) vs (gens demo_world)))"
    by (simp add: prod_eq_iff)
  have n: "validation_set_name vs = PStr ''g''" by (simp add: vs_def)
  have t: "model (self w3) = Some demo_model"
    by (simp add: w3_def after_logs_def demo_world_def demo_callback_def)
  have l: "length [PFloat 1, PFloat 2] \<le> length (metrics_names demo_model)"
    by (simp add: demo_model_def)
  note th = metrics_recorded_under_keys
    [where pfx = prefix and mte = model_to_evaluate and key = "''g_acc''",
     OF sets mte pre d r n t l]
  from th have a: "\<exists>gs'. evaluate_generator demo_model (PGen 0) (PInt 2) (gens demo_world)
            = (Inr [PFloat 1, PFloat 2], gs')"
    by (simp add: vs_def)
  from th have b: "on_epoch_end 0 None demo_world =
      for_each [PTuple [PList [PArr [NpInt 1, NpInt 2, NpInt 3]],
                        PList [PArr [NpInt 7, NpInt 8, NpInt 9]], PStr ''a'']]
        (evaluate_set prefix (Some demo_model)) ()
        (w3\<lparr> self := (self w3)\<lparr> history :=
              append_all (history (self w3))
                [(''g_predictions'', p), (''g_loss'', PFloat 1), (''g_acc'', PFloat 2)] \<rparr>,
            gens := snd (run_model (self w3) (Some demo_model) vs (gens demo_world)),
            printed := [(''g_loss'', PFloat 1), (''g_acc'', PFloat 2)] \<rparr>)"
    by (simp add: on_epoch_end_def prefix_def w3_def after_logs_def demo_defs upt_rec)
  have c: "fst (on_epoch_end 0 None demo_world) = Inr ()"
    unfolding b
    by (simp add: w3_def vs_def p_def prefix_def after_logs_def logs_items_def append_all_def
        demo_defs comp_defs body_defs zip_rounds.simps upt_rec)
  have e: "history (self (snd (on_epoch_end 0 None demo_world))) =
       [(''g_predictions'', [p]),
        (''g_loss'', [PFloat 1]), (''g_acc'', [PFloat 2]),
        (''a_predictions'',
         [PDict [(''y_pred'', PList [PTuple [NpInt 1], PTuple [NpInt 2], PTuple [NpInt 3]]),
                 (''y_true'', PList [PTuple [NpInt 7], PTuple [NpInt 8], PTuple [NpInt 9]])]]),
        (''a_loss'', [PFloat 3]), (''a_acc'', [PFloat 4])]"
    unfolding b
    by (simp add: w3_def vs_def p_def prefix_def after_logs_def logs_items_def append_all_def
        demo_defs comp_defs body_defs zip_rounds.simps upt_rec)
  from a c e show ?thesis by (simp add: p_def)
qed

section \<open>on_epoch_end: no model to evaluate\<close>



text \<open>
  C2, as the code has it. The claim that no call with \<^verbatim>\<open>model_to_evaluate()\<close>
  returning \<^verbatim>\<open>None\<close> and a non-empty list fails is false. In the class itself
  \<^verbatim>\<open>model_to_evaluate\<close> returns \<^verbatim>\<open>self.model\<close>, so it returns \<^verbatim>\<open>None\<close> only for
  a callback that no model was attached to, and then line 113 has no
  \<^verbatim>\<open>metrics_names\<close> to read: the call raises \<^verbatim>\<open>AttributeError\<close>. And with a model
  attached and an overridden \<^verbatim>\<open>model_to_evaluate\<close> that returns \<^verbatim>\<open>None\<close>, the
  validation set \<^verbatim>\<open>(1, 2)\<close>, which construction accepts, cannot be unpacked at
  line 59: the call raises \<^verbatim>\<open>TypeError\<close>.
\<close>

theorem no_model_can_raise:
  "model_to_evaluate (after_logs 0 None (demo_callback\<lparr> model := None \<rparr>)) = None
   \<and> validation_sets (demo_callback\<lparr> model := None \<rparr>) \<noteq> []
   \<and> fst (on_epoch_end 0 None (demo_world\<lparr> self := demo_callback\<lparr> model := None \<rparr> \<rparr>))
       = Inl AttributeError
   \<and> \<not> isl (init [PTuple [PInt 1, PInt 2]] 0 PNone True False)
   \<and> fst (on_epoch_end_with prefix (\<lambda>cb. None) 0 None
           (demo_world\<lparr> self := demo_callback\<lparr> validation_sets := [PTuple [PInt 1, PInt 2]] \<rparr> \<rparr>))
       = Inl TypeError"
  by (simp add: on_epoch_end_def on_epoch_end_with_def model_to_evaluate_def prefix_def
      record_logs_def after_logs_def init_def demo_defs comp_defs body_defs)



section \<open>on_epoch_end: the evaluate operation\<close>

lemma evaluate_set_by_shape:
  "(g \<noteq> PNone \<longrightarrow>
      evaluate_set pfx (Some m) (PTuple [PTuple [g, s], name]) () w =
        bind (on_gens (evaluate_generator m g s)) (\<lambda>values.
        bind (\<lambda>w'. on_gens
               (if record_predictions (self w')
                then bind (reconstruct_generator m
                             \<lparr> validation_generator = g, validation_steps = s,
                               validation_data = PNone, validation_targets = PNone,
                               sample_weights = PNone, validation_set_name = name \<rparr>)
                       assert_same_length
                else ret PNone) w') (\<lambda>predictions.
        bind (record_bundle pfx name predictions) (\<lambda>_.
        for_each (enumerate_list values) (record_metric pfx name) ()))) w)
   \<and> evaluate_set pfx (Some m) (PTuple [data, targets, name]) () w =
        bind (on_gens (evaluate m data targets 0 PNone (batch_size (self w)))) (\<lambda>values.
        bind (\<lambda>w'. on_gens
               (if record_predictions (self w')
                then bind (reconstruct_arrays m
                             \<lparr> validation_generator = PNone, validation_steps = PNone,
                               validation_data = data, validation_targets = targets,
                               sample_weights = PNone, validation_set_name = name \<rparr>)
                       assert_same_length
                else ret PNone) w') (\<lambda>predictions.
        bind (record_bundle pfx name predictions) (\<lambda>_.
        for_each (enumerate_list values) (record_metric pfx name) ()))) w
   \<and> evaluate_set pfx (Some m) (PTuple [data, targets, weights, name]) () w =
        bind (on_gens (evaluate m data targets 0 weights (batch_size (self w)))) (\<lambda>values.
        bind (\<lambda>w'. on_gens
               (if record_predictions (self w')
                then bind (reconstruct_arrays m
                             \<lparr> validation_generator = PNone, validation_steps = PNone,
                               validation_data = data, validation_targets = targets,
                               sample_weights = weights, validation_set_name = name \<rparr>)
                       assert_same_length
                else ret PNone) w') (\<lambda>predictions.
        bind (record_bundle pfx name predictions) (\<lambda>_.
        for_each (enumerate_list values) (record_metric pfx name) ()))) w"
proof -
  have body: "evaluate_set pfx (Some m) v () w =
        bind (on_gens c) (\<lambda>values.
        bind (\<lambda>w'. on_gens
               (if record_predictions (self w') then bind rec assert_same_length else ret PNone)
               w') (\<lambda>predictions.
        bind (record_bundle pfx (validation_set_name vs) predictions) (\<lambda>_.
        for_each (enumerate_list values) (record_metric pfx (validation_set_name vs)) ()))) w"
    if d: "destructure v (gens w) = (Inr vs, gens w)"
      and r: "run_model (self w) (Some m) vs =
        bind c (\<lambda>results.
          if record_predictions (self w) then
            bind rec (\<lambda>p. bind (assert_same_length p) (\<lambda>predictions. ret (results, predictions)))
          else ret (results, PNone))"
    for v vs c rec
  proof -
    have s1: "on_gens (destructure v) w = (Inr vs, w)"
      by (simp add: on_gens_def d)
    have "evaluate_set pfx (Some m) v () w =
      bind (\<lambda>w. on_gens (run_model (self w) (Some m) vs) w) (\<lambda>rp.
      bind (record_bundle pfx (validation_set_name vs) (snd rp)) (\<lambda>_.
      for_each (enumerate_list (fst rp)) (record_metric pfx (validation_set_name vs)) ())) w"
      unfolding evaluate_set_def by (simp only: bind_def s1 prod.case sum.case)
    also have "\<dots> = bind (on_gens c) (\<lambda>values.
        bind (\<lambda>w'. on_gens
               (if record_predictions (self w') then bind rec assert_same_length else ret PNone)
               w') (\<lambda>predictions.
        bind (record_bundle pfx (validation_set_name vs) predictions) (\<lambda>_.
        for_each (enumerate_list values) (record_metric pfx (validation_set_name vs)) ()))) w"
    proof -
      obtain r1 gs1 where c: "c (gens w) = (r1, gs1)" by (cases "c (gens w)")
      show ?thesis
      proof (cases r1)
        case (Inl e)
        with c show ?thesis by (simp add: r bind_def on_gens_def split: prod.splits sum.splits)
      next
        case vals: (Inr vals)
        show ?thesis
        proof (cases "record_predictions (self w)")
          case False
          with c vals show ?thesis by (simp add: r bind_def on_gens_def ret_def split: prod.splits sum.splits)
        next
          case True
          obtain r2 gs2 where rec: "rec gs1 = (r2, gs2)" by (cases "rec gs1")
          show ?thesis
          proof (cases r2)
            case (Inl e)
            with c vals True rec show ?thesis by (simp add: r bind_def on_gens_def split: prod.splits sum.splits)
          next
            case p: (Inr p)
            obtain r3 gs3 where a: "assert_same_length p gs2 = (r3, gs3)"
              by (cases "assert_same_length p gs2")
            show ?thesis
            proof (cases r3)
              case (Inl e)
              with c vals True rec p a show ?thesis by (simp add: r bind_def on_gens_def split: prod.splits sum.splits)
            next
              case (Inr b)
              with c vals True rec p a show ?thesis
                by (simp add: r bind_def on_gens_def ret_def split: prod.splits sum.splits)
            qed
          qed
        qed
      qed
    qed
    finally show ?thesis .
  qed
  have a: "evaluate_set pfx (Some m) (PTuple [PTuple [g, s], name]) () w =
        bind (on_gens (evaluate_generator m g s)) (\<lambda>values.
        bind (\<lambda>w'. on_gens
               (if record_predictions (self w')
                then bind (reconstruct_generator m
                             \<lparr> validation_generator = g, validation_steps = s,
                               validation_data = PNone, validation_targets = PNone,
                               sample_weights = PNone, validation_set_name = name \<rparr>)
                       assert_same_length
                else ret PNone) w') (\<lambda>predictions.
        bind (record_bundle pfx name predictions) (\<lambda>_.
        for_each (enumerate_list values) (record_metric pfx name) ()))) w"
    if "g \<noteq> PNone"
    using body [OF destructure_generator_shape, of g s name
                  "evaluate_generator m g s"
                  "reconstruct_generator m
                             \<lparr> validation_generator = g, validation_steps = s,
                               validation_data = PNone, validation_targets = PNone,
                               sample_weights = PNone, validation_set_name = name \<rparr>"]
      that
    by (simp add: run_model_def)
  have b: "evaluate_set pfx (Some m) (PTuple [data, targets, name]) () w =
        bind (on_gens (evaluate m data targets 0 PNone (batch_size (self w)))) (\<lambda>values.
        bind (\<lambda>w'. on_gens
               (if record_predictions (self w')
                then bind (reconstruct_arrays m
                             \<lparr> validation_generator = PNone, validation_steps = PNone,
                               validation_data = data, validation_targets = targets,
                               sample_weights = PNone, validation_set_name = name \<rparr>)
                       assert_same_length
                else ret PNone) w') (\<lambda>predictions.
        bind (record_bundle pfx name predictions) (\<lambda>_.
        for_each (enumerate_list values) (record_metric pfx name) ()))) w"
    using body [OF destructure_array_shape, of data targets name
                  "evaluate m data targets 0 PNone (batch_size (self w))"
                  "reconstruct_arrays m
                             \<lparr> validation_generator = PNone, validation_steps = PNone,
                               validation_data = data, validation_targets = targets,
                               sample_weights = PNone, validation_set_name = name \<rparr>"]
    by (simp add: run_model_def)
  have c: "evaluate_set pfx (Some m) (PTuple [data, targets, weights, name]) () w =
        bind (on_gens (evaluate m data targets 0 weights (batch_size (self w)))) (\<lambda>values.
        bind (\<lambda>w'. on_gens
               (if record_predictions (self w')
                then bind (reconstruct_arrays m
                             \<lparr> validation_generator = PNone, validation_steps = PNone,
                               validation_data = data, validation_targets = targets,
                               sample_weights = weights, validation_set_name = name \<rparr>)
                       assert_same_length
                else ret PNone) w') (\<lambda>predictions.
        bind (record_bundle pfx name predictions) (\<lambda>_.
        for_each (enumerate_list values) (record_metric pfx name) ()))) w"
    using body [OF destructure_weighted_shape, of data targets weights name
                  "evaluate m data targets 0 weights (batch_size (self w))"
                  "reconstruct_arrays m
                             \<lparr> validation_generator = PNone, validation_steps = PNone,
                               validation_data = data, validation_targets = targets,
                               sample_weights = weights, validation_set_name = name \<rparr>"]
    by (simp add: run_model_def)
  from a b c show ?thesis by blast
qed


text \<open>
  C4. Take any validation set of the list, the sets before it having been evaluated
  without an exception, and let the model to evaluate be some model. If the set is a
  2-tuple \<^verbatim>\<open>((generator, steps), name)\<close> whose generator is not \<^verbatim>\<open>None\<close>,
  \<^verbatim>\<open>on_epoch_end\<close> goes on with \<^verbatim>\<open>evaluate_generator(generator, steps)\<close>; if it is a
  3-tuple \<^verbatim>\<open>(data, targets, name)\<close>, with \<^verbatim>\<open>evaluate\<close> on the data and the
  targets, \<^verbatim>\<open>verbose=0\<close>, no sample weights and the batch size of the callback; if it
  is a 4-tuple, with the same and the sample weights of the tuple. An exception of the
  call ends \<^verbatim>\<open>on_epoch_end\<close>; otherwise the predictions (when recorded) and the
  recording of the returned values follow, which invoke no evaluate operation, and then
  the remaining sets.
\<close>

theorem evaluate_call_matches_shape:
  assumes sets: "validation_sets (self w) = before @ validation_set # rest"
      and mte: "mte (after_logs ep logs (self w)) = Some m"
      and pre: "for_each before (evaluate_set pfx (Some m)) ()
                  (w\<lparr> self := after_logs ep logs (self w) \<rparr>) = (Inr (), w3)"
  shows "(validation_set = PTuple [PTuple [g, s], name] \<and> g \<noteq> PNone \<longrightarrow>
            on_epoch_end_with pfx mte ep logs w =
              (case bind (on_gens (evaluate_generator m g s))
                      (after_evaluate pfx name
                         (reconstruct_generator m
                            \<lparr> validation_generator = g, validation_steps = s,
                              validation_data = PNone, validation_targets = PNone,
                              sample_weights = PNone, validation_set_name = name \<rparr>)) w3 of
                 (Inl e, w4) \<Rightarrow> (Inl e, w4)
               | (Inr u, w4) \<Rightarrow> for_each rest (evaluate_set pfx (Some m)) () w4))
     \<and> (validation_set = PTuple [data, targets, name] \<longrightarrow>
            on_epoch_end_with pfx mte ep logs w =
              (case bind (on_gens (evaluate m data targets 0 PNone (batch_size (self w3))))
                      (after_evaluate pfx name
                         (reconstruct_arrays m
                            \<lparr> validation_generator = PNone, validation_steps = PNone,
                              validation_data = data, validation_targets = targets,
                              sample_weights = PNone, validation_set_name = name \<rparr>)) w3 of
                 (Inl e, w4) \<Rightarrow> (Inl e, w4)
               | (Inr u, w4) \<Rightarrow> for_each rest (evaluate_set pfx (Some m)) () w4))
     \<and> (validation_set = PTuple [data, targets, weights, name] \<longrightarrow>
            on_epoch_end_with pfx mte ep logs w =
              (case bind (on_gens (evaluate m data targets 0 weights (batch_size (self w3))))
                      (after_evaluate pfx name
                         (reconstruct_arrays m
                            \<lparr> validation_generator = PNone, validation_steps = PNone,
                              validation_data = data, validation_targets = targets,
                              sample_weights = weights, validation_set_name = name \<rparr>)) w3 of
                 (Inl e, w4) \<Rightarrow> (Inl e, w4)
               | (Inr u, w4) \<Rightarrow> for_each rest (evaluate_set pfx (Some m)) () w4))"
proof -
  have pre': "for_each before (evaluate_set pfx (mte (after_logs ep logs (self w)))) ()
                  (w\<lparr> self := after_logs ep logs (self w) \<rparr>) = (Inr (), w3)"
    using pre by (simp add: mte)
  have whole: "on_epoch_end_with pfx mte ep logs w =
     (case evaluate_set pfx (Some m) validation_set () w3 of
        (Inl e, w4) \<Rightarrow> (Inl e, w4)
      | (Inr u, w4) \<Rightarrow> for_each rest (evaluate_set pfx (Some m)) () w4)"
    using on_epoch_end_with_at
      [where mte = mte and pfx = pfx and ep = ep and logs = logs, OF sets pre']
    by (simp only: mte)
  note shape = evaluate_set_by_shape
    [where pfx = pfx and m = m and w = w3 and g = g and s = s and name = name
       and data = data and targets = targets and weights = weights]
  have a: "on_epoch_end_with pfx mte ep logs w =
              (case bind (on_gens (evaluate_generator m g s))
                      (after_evaluate pfx name
                         (reconstruct_generator m
                            \<lparr> validation_generator = g, validation_steps = s,
                              validation_data = PNone, validation_targets = PNone,
                              sample_weights = PNone, validation_set_name = name \<rparr>)) w3 of
                 (Inl e, w4) \<Rightarrow> (Inl e, w4)
               | (Inr u, w4) \<Rightarrow> for_each rest (evaluate_set pfx (Some m)) () w4)"
    if "validation_set = PTuple [PTuple [g, s], name]" and "g \<noteq> PNone"
  proof -
    from shape that(2) have "evaluate_set pfx (Some m) validation_set () w3 =
        bind (on_gens (evaluate_generator m g s))
             (after_evaluate pfx name
                (reconstruct_generator m
                   \<lparr> validation_generator = g, validation_steps = s,
                     validation_data = PNone, validation_targets = PNone,
                     sample_weights = PNone, validation_set_name = name \<rparr>)) w3"
      unfolding after_evaluate_def that(1) by blast
    then show ?thesis by (simp only: whole)
  qed
  have b: "on_epoch_end_with pfx mte ep logs w =
              (case bind (on_gens (evaluate m data targets 0 PNone (batch_size (self w3))))
                      (after_evaluate pfx name
                         (reconstruct_arrays m
                            \<lparr> validation_generator = PNone, validation_steps = PNone,
                              validation_data = data, validation_targets = targets,
                              sample_weights = PNone, validation_set_name = name \<rparr>)) w3 of
                 (Inl e, w4) \<Rightarrow> (Inl e, w4)
               | (Inr u, w4) \<Rightarrow> for_each rest (evaluate_set pfx (Some m)) () w4)"
    if "validation_set = PTuple [data, targets, name]"
  proof -
    from shape have "evaluate_set pfx (Some m) validation_set () w3 =
        bind (on_gens (evaluate m data targets 0 PNone (batch_size (self w3))))
             (after_evaluate pfx name
                (reconstruct_arrays m
                   \<lparr> validation_generator = PNone, validation_steps = PNone,
                     validation_data = data, validation_targets = targets,
                     sample_weights = PNone, validation_set_name = name \<rparr>)) w3"
      unfolding after_evaluate_def that by blast
    then show ?thesis by (simp only: whole)
  qed
  have c: "on_epoch_end_with pfx mte ep logs w =
              (case bind (on_gens (evaluate m data targets 0 weights (batch_size (self w3))))
                      (after_evaluate pfx name
                         (reconstruct_arrays m
                            \<lparr> validation_generator = PNone, validation_steps = PNone,
                              validation_data = data, validation_targets = targets,
                              sample_weights = weights, validation_set_name = name \<rparr>)) w3 of
                 (Inl e, w4) \<Rightarrow> (Inl e, w4)
               | (Inr u, w4) \<Rightarrow> for_each rest (evaluate_set pfx (Some m)) () w4)"
    if "validation_set = PTuple [data, targets, weights, name]"
  proof -
    from shape have "evaluate_set pfx (Some m) validation_set () w3 =
        bind (on_gens (evaluate m data targets 0 weights (batch_size (self w3))))
             (after_evaluate pfx name
                (reconstruct_arrays m
                   \<lparr> validation_generator = PNone, validation_steps = PNone,
                     validation_data = data, validation_targets = targets,
                     sample_weights = weights, validation_set_name = name \<rparr>)) w3"
      unfolding after_evaluate_def that by blast
    then show ?thesis by (simp only: whole)
  qed
  from a b c show ?thesis by blast
qed

theorem evaluate_call_matches_shape_witness:
  "on_epoch_end 0 None demo_world =
     (case bind (on_gens (evaluate_generator demo_model (PGen 0) (PInt 2)))
             (after_evaluate prefix (PStr ''g'')
                (reconstruct_generator demo_model
                   \<lparr> validation_generator = PGen 0, validation_steps = PInt 2,
                     validation_data = PNone, validation_targets = PNone,
                     sample_weights = PNone, validation_set_name = PStr ''g'' \<rparr>))
             (demo_world\<lparr> self := after_logs 0 None (self demo_world) \<rparr>) of
        (Inl e, w4) \<Rightarrow> (Inl e, w4)
      | (Inr u, w4) \<Rightarrow>
          for_each [PTuple [PList [PArr [NpInt 1, NpInt 2, NpInt 3]],
                            PList [PArr [NpInt 7, NpInt 8, NpInt 9]], PStr ''a'']]
            (evaluate_set prefix (Some demo_model)) () w4)
   \<and> fst (on_epoch_end 0 None demo_world) = Inr ()"
proof -
  have sets: "validation_sets (self demo_world) =
      [] @ PTuple [PTuple [PGen 0, PInt 2], PStr ''g'']
         # [PTuple [PList [PArr [NpInt 1, NpInt 2, NpInt 3]],
                    PList [PArr [NpInt 7, NpInt 8, NpInt 9]], PStr ''a'']]"
    by (simp add: demo_world_def demo_callback_def)
  have mte: "model_to_evaluate (after_logs 0 None (self demo_world)) = Some demo_model"
    by (simp add: model_to_evaluate_def after_logs_def demo_world_def demo_callback_def)
  have pre: "for_each [] (evaluate_set prefix (Some demo_model)) ()
               (demo_world\<lparr> self := after_logs 0 None (self demo_world) \<rparr>)
             = (Inr (), demo_world\<lparr> self := after_logs 0 None (self demo_world) \<rparr>)"
    by simp
  have g: "PTuple [PTuple [PGen 0, PInt 2], PStr ''g''] = PTuple [PTuple [PGen 0, PInt 2], PStr ''g'']
           \<and> PGen 0 \<noteq> PNone"
    by simp
  from g evaluate_call_matches_shape
    [where pfx = prefix and mte = model_to_evaluate and g = "PGen 0" and s = "PInt 2"
       and name = "PStr ''g''", OF sets mte pre]
  have a: "on_epoch_end 0 None demo_world =
     (case bind (on_gens (evaluate_generator demo_model (PGen 0) (PInt 2)))
             (after_evaluate prefix (PStr ''g'')
                (reconstruct_generator demo_model
                   \<lparr> validation_generator = PGen 0, validation_steps = PInt 2,
                     validation_data = PNone, validation_targets = PNone,
                     sample_weights = PNone, validation_set_name = PStr ''g'' \<rparr>))
             (demo_world\<lparr> self := after_logs 0 None (self demo_world) \<rparr>) of
        (Inl e, w4) \<Rightarrow> (Inl e, w4)
      | (Inr u, w4) \<Rightarrow>
          for_each [PTuple [PList [PArr [NpInt 1, NpInt 2, NpInt 3]],
                            PList [PArr [NpInt 7, NpInt 8, NpInt 9]], PStr ''a'']]
            (evaluate_set prefix (Some demo_model)) () w4)"
    unfolding on_epoch_end_def by blast
  have b: "fst (on_epoch_end 0 None demo_world) = Inr ()"
    unfolding a
    by (simp add: after_evaluate_def prefix_def after_logs_def logs_items_def append_all_def
        demo_defs comp_defs body_defs zip_rounds.simps upt_rec)
  from a b show ?thesis by blast
qed

section \<open>on_epoch_end: the assertion on the predictions\<close>

lemma run_model_mismatch:
  assumes rp: "record_predictions cb"
      and e: "(if validation_generator vs \<noteq> PNone
               then evaluate_generator m (validation_generator vs) (validation_steps vs)
               else evaluate m (validation_data vs) (validation_targets vs) 0
                      (sample_weights vs) (batch_size cb)) gs1 = (Inr vals, gs2)"
      and r: "(if validation_generator vs \<noteq> PNone
               then reconstruct_generator m vs else reconstruct_arrays m vs) gs2
                = (Inr (y_pred, y_true), gs3)"
  shows "run_model cb (Some m) vs gs1 =
     (if length y_pred = length y_true
      then (Inr (vals, prediction_bundle y_pred y_true), gs3)
      else (Inl AssertionError, gs3))"
proof (cases "validation_generator vs \<noteq> PNone")
  case True
  with e r rp show ?thesis
    by (simp add: run_model_def bind_def assert_same_length_def ret_def raise_def)
next
  case False
  with e r rp show ?thesis
    by (simp add: run_model_def bind_def assert_same_length_def ret_def raise_def)
qed

lemma evaluate_set_raises:
  assumes d: "destructure validation_set (gens w) = (Inr vs, gs1)"
      and r: "run_model (self w) model' vs gs1 = (Inl e, gs2)"
  shows "evaluate_set pfx model' validation_set () w = (Inl e, w\<lparr> gens := gs2 \<rparr>)"
  by (simp add: evaluate_set_def bind_def on_gens_def d r)

text \<open>
  C6. Take any validation set of the list, the sets before it having been evaluated
  without an exception, with predictions recorded and a model to evaluate, and let its
  evaluate call return and the reconstruction of \<^verbatim>\<open>y_pred\<close> and \<^verbatim>\<open>y_true\<close>
  succeed. If the two sequences differ in length, \<^verbatim>\<open>on_epoch_end\<close> raises
  \<^verbatim>\<open>AssertionError\<close> there, with the history as it was before this set; if they have
  the same length, the evaluation of the set returns their bundle. And whatever the model
  and the validation set, a bundle that the evaluation of a set returns holds two
  sequences of the same length.
\<close>

theorem mismatch_fails_assertion:
  assumes sets: "validation_sets (self w) = before @ validation_set # rest"
      and mte: "mte (after_logs ep logs (self w)) = Some m"
      and pre: "for_each before (evaluate_set pfx (Some m)) ()
                  (w\<lparr> self := after_logs ep logs (self w) \<rparr>) = (Inr (), w3)"
      and rp: "record_predictions (self w3)"
      and d: "destructure validation_set (gens w3) = (Inr vs, gs1)"
      and e: "(if validation_generator vs \<noteq> PNone
               then evaluate_generator m (validation_generator vs) (validation_steps vs)
               else evaluate m (validation_data vs) (validation_targets vs) 0
                      (sample_weights vs) (batch_size (self w3))) gs1 = (Inr vals, gs2)"
      and r: "(if validation_generator vs \<noteq> PNone
               then reconstruct_generator m vs else reconstruct_arrays m vs) gs2
                = (Inr (y_pred, y_true), gs3)"
  shows "(length y_pred \<noteq> length y_true \<longrightarrow>
            on_epoch_end_with pfx mte ep logs w = (Inl AssertionError, w3\<lparr> gens := gs3 \<rparr>))
     \<and> (length y_pred = length y_true \<longrightarrow>
            run_model (self w3) (Some m) vs gs1
              = (Inr (vals, prediction_bundle y_pred y_true), gs3))
     \<and> (\<forall>cb model' vs' gs vals' p gs'.
            record_predictions cb \<and> run_model cb model' vs' gs = (Inr (vals', p), gs') \<longrightarrow>
            (\<exists>yp yt. p = prediction_bundle yp yt \<and> length yp = length yt))"
proof -
  note rm = run_model_mismatch [OF rp e r]
  have pre': "for_each before (evaluate_set pfx (mte (after_logs ep logs (self w)))) ()
                  (w\<lparr> self := after_logs ep logs (self w) \<rparr>) = (Inr (), w3)"
    using pre by (simp add: mte)
  have a: "on_epoch_end_with pfx mte ep logs w = (Inl AssertionError, w3\<lparr> gens := gs3 \<rparr>)"
    if "length y_pred \<noteq> length y_true"
  proof -
    from rm that have "run_model (self w3) (Some m) vs gs1 = (Inl AssertionError, gs3)"
      by simp
    from evaluate_set_raises [OF d this]
    have "evaluate_set pfx (Some m) validation_set () w3
            = (Inl AssertionError, w3\<lparr> gens := gs3 \<rparr>)" .
    then show ?thesis
      unfolding on_epoch_end_with_at
        [where mte = mte and pfx = pfx and ep = ep and logs = logs, OF sets pre'] mte
      by simp
  qed
  have b: "run_model (self w3) (Some m) vs gs1
              = (Inr (vals, prediction_bundle y_pred y_true), gs3)"
    if "length y_pred = length y_true"
    using rm that by simp
  have c: "\<forall>cb model' vs' gs vals' p gs'.
            record_predictions cb \<and> run_model cb model' vs' gs = (Inr (vals', p), gs') \<longrightarrow>
            (\<exists>yp yt. p = prediction_bundle yp yt \<and> length yp = length yt)"
    using run_model_bundle by blast
  from a b c show ?thesis by blast
qed


theorem mismatch_fails_assertion_witness:
  "fst (on_epoch_end 0 None
         (demo_world\<lparr> self := demo_callback\<lparr> validation_sets :=
            [PTuple [PList [PArr [NpInt 1, NpInt 2, NpInt 3]], PList [PArr [NpInt 7, NpInt 8]],
                     PStr ''a'']] \<rparr> \<rparr>)) = Inl AssertionError
   \<and> history (self (snd (on_epoch_end 0 None
         (demo_world\<lparr> self := demo_callback\<lparr> validation_sets :=
            [PTuple [PList [PArr [NpInt 1, NpInt 2, NpInt 3]], PList [PArr [NpInt 7, NpInt 8]],
                     PStr ''a'']] \<rparr> \<rparr>)))) = []"
proof -
  define v where "v = PTuple [PList [PArr [NpInt 1, NpInt 2, NpInt 3]], PList [PArr [NpInt 7, NpInt 8]],
                     PStr ''a'']"
  define w where "w = demo_world\<lparr> self := demo_callback\<lparr> validation_sets := [v] \<rparr> \<rparr>"
  define w3 where "w3 = w\<lparr> self := after_logs 0 None (self w) \<rparr>"
  define vs where "vs = \<lparr> validation_generator = PNone, validation_steps = PNone,
     validation_data = PList [PArr [NpInt 1, NpInt 2, NpInt 3]],
     validation_targets = PList [PArr [NpInt 7, NpInt 8]], sample_weights = PNone,
     validation_set_name = PStr ''a'' \<rparr>"
  have sets: "validation_sets (self w) = [] @ v # []"
    by (simp add: w_def)
  have mte: "model_to_evaluate (after_logs 0 None (self w)) = Some demo_model"
    by (simp add: model_to_evaluate_def after_logs_def w_def demo_callback_def)
  have pre: "for_each [] (evaluate_set prefix (Some demo_model)) ()
               (w\<lparr> self := after_logs 0 None (self w) \<rparr>) = (Inr (), w3)"
    by (simp add: w3_def)
  have rp: "record_predictions (self w3)"
    by (simp add: w3_def w_def after_logs_def demo_callback_def)
  have d: "destructure v (gens w3) = (Inr vs, gens w3)"
    by (simp add: v_def vs_def destructure_array_shape)
  have e: "(if validation_generator vs \<noteq> PNone
            then evaluate_generator demo_model (validation_generator vs) (validation_steps vs)
            else evaluate demo_model (validation_data vs) (validation_targets vs) 0
                   (sample_weights vs) (batch_size (self w3))) (gens w3)
           = (Inr [PFloat 3, PFloat 4], gens w3)"
    by (simp add: vs_def demo_model_def)
  have r: "(if validation_generator vs \<noteq> PNone
            then reconstruct_generator demo_model vs else reconstruct_arrays demo_model vs)
             (gens w3)
           = (Inr ([PTuple [NpInt 1], PTuple [NpInt 2], PTuple [NpInt 3]],
                   [PTuple [NpInt 7], PTuple [NpInt 8]]), gens w3)"
    by (simp add: vs_def demo_model_def reconstruct_arrays_def py_zip_star_def bind_def
        ret_def lift_def zip_rounds.simps)
  have ne: "length [PTuple [NpInt 1], PTuple [NpInt 2], PTuple [NpInt 3]]
              \<noteq> length [PTuple [NpInt 7], PTuple [NpInt 8]]"
    by simp
  from ne mismatch_fails_assertion
    [where pfx = prefix and mte = model_to_evaluate, OF sets mte pre rp d e r]
  have "on_epoch_end 0 None w = (Inl AssertionError, w3\<lparr> gens := gens w3 \<rparr>)"
    by (simp add: on_epoch_end_def)
  then show ?thesis
    by (simp add: w_def [symmetric] v_def [symmetric])
       (simp add: w3_def w_def after_logs_def demo_callback_def demo_world_def logs_items_def
          append_all_def)
qed

section \<open>on_epoch_end: the predictions of a generator\<close>




















end
